theory Spec2Isabelle
  imports Complex_Main "HOL-Library.Multiset"
begin

section \<open>Module lifecycle manager (content/module-manager)\<close>

text \<open>
  A feature module (\<^verbatim>\<open>FeatureModule\<close> in \<^verbatim>\<open>modules/types.ts\<close>) has a readonly id and
  two routines. The routines act on the page, which the manager never inspects: the
  page is the type parameter \<open>'w\<close>. A routine either returns or throws; in both cases
  it may have changed the page, so both outcomes carry the page it leaves behind.
\<close>

datatype 'w outcome = Returned 'w | Threw string 'w

record 'w FeatureModule =
  module_id :: string
  enable :: "'w \<Rightarrow> 'w outcome"
  disable :: "'w \<Rightarrow> 'w outcome"

text \<open>
  The manager's own effects are console output and calls of module routines. The call
  trace \<open>invoked\<close> is bookkeeping of the model: it records every call of a routine,
  in order, so that "the routine is invoked" can be stated.
\<close>

datatype console_entry =
    ConsoleLog string
  | ConsoleWarn string
  | ConsoleError string string

datatype routine_call = EnableCalled string | DisableCalled string

text \<open>
  \<^verbatim>\<open>class ModuleManager\<close>: \<open>modules\<close> is the \<^verbatim>\<open>Map<string, FeatureModule>\<close>, kept as
  the list of its entries in insertion order (the order a \<^verbatim>\<open>for ... of\<close> over the Map
  visits them); the key of an entry is the id of its module, which is readonly.
  \<open>activeModules\<close> is the \<^verbatim>\<open>Set<string>\<close>. \<open>awaiting\<close> holds what the JavaScript
  runtime keeps for the manager: the calls of \<^verbatim>\<open>enableModule\<close> that are suspended at
  their \<^verbatim>\<open>await\<close>, each by the id of its unit, oldest first.
\<close>

record 'w ModuleManager =
  modules :: "'w FeatureModule list"
  activeModules :: "string set"
  awaiting :: "string list"
  page :: 'w
  console :: "console_entry list"
  invoked :: "routine_call list"

definition newModuleManager :: "'w \<Rightarrow> 'w ModuleManager" where
  "newModuleManager w =
     \<lparr>modules = [], activeModules = {}, awaiting = [], page = w, console = [], invoked = []\<rparr>"

definition has_module :: "'w ModuleManager \<Rightarrow> string \<Rightarrow> bool" where
  "has_module s i = (i \<in> set (map module_id (modules s)))"

definition register :: "'w FeatureModule \<Rightarrow> 'w ModuleManager \<Rightarrow> 'w ModuleManager" where
  "register m s =
     (if has_module s (module_id m)
      then s\<lparr>console := console s @
             [ConsoleWarn (''[Fallen Tweaks] Module \"'' @ module_id m @ ''\" already registered.'')]\<rparr>
      else s\<lparr>modules := modules s @ [m]\<rparr>)"

text \<open>
  \<^verbatim>\<open>enableModule\<close> is an \<^verbatim>\<open>async\<close> function, and none of its callers awaits it. What
  a call does at once is the part up to the \<^verbatim>\<open>await\<close>: the guard on the active set,
  then the call of the routine inside \<^verbatim>\<open>try\<close>. A routine that throws is caught there
  and the error logged. When the routine returns, what it returned is awaited: the call
  is suspended, the id is not yet in the active set, and the caller carries on.
\<close>

definition enableModule :: "'w FeatureModule \<Rightarrow> 'w ModuleManager \<Rightarrow> 'w ModuleManager" where
  "enableModule m s =
     (if module_id m \<in> activeModules s then s
      else (case enable m (page s) of
              Returned w \<Rightarrow>
                s\<lparr>page := w,
                  invoked := invoked s @ [EnableCalled (module_id m)],
                  awaiting := awaiting s @ [module_id m]\<rparr>
            | Threw err w \<Rightarrow>
                s\<lparr>page := w,
                  invoked := invoked s @ [EnableCalled (module_id m)],
                  console := console s @
                    [ConsoleError (''[Fallen Tweaks] Failed to enable \"'' @ module_id m @ ''\":'') err]\<rparr>))"

text \<open>
  The rest of \<^verbatim>\<open>enableModule\<close>, which the runtime runs once the awaited value has
  settled, after the code that made the call has run to its end. The value is fulfilled
  when the routine returned no promise or one that succeeds: the id is added to the
  active set and the success line logged. It is rejected when the routine is itself an
  \<^verbatim>\<open>async\<close> function that fails: the \<^verbatim>\<open>catch\<close> logs the error. Suspended calls may
  resume in any order, so the step names the unit; with no suspended call for that unit
  there is nothing to resume. What an \<^verbatim>\<open>async\<close> routine does to the page after its own
  first \<^verbatim>\<open>await\<close> is not tracked.
\<close>

datatype settlement = Fulfilled | Rejected string

definition enableModule_resume ::
  "string \<Rightarrow> settlement \<Rightarrow> 'w ModuleManager \<Rightarrow> 'w ModuleManager" where
  "enableModule_resume i settled s =
     (if i \<notin> set (awaiting s) then s
      else (case settled of
              Fulfilled \<Rightarrow>
                s\<lparr>awaiting := remove1 i (awaiting s),
                  activeModules := insert i (activeModules s),
                  console := console s @ [ConsoleLog (''[Fallen Tweaks] Enabled: '' @ i)]\<rparr>
            | Rejected err \<Rightarrow>
                s\<lparr>awaiting := remove1 i (awaiting s),
                  console := console s @
                    [ConsoleError (''[Fallen Tweaks] Failed to enable \"'' @ i @ ''\":'') err]\<rparr>))"

text \<open>
  \<^verbatim>\<open>disableModule\<close>: the same shape. \<^verbatim>\<open>this.activeModules.delete\<close> stands after
  the call of the routine inside the \<^verbatim>\<open>try\<close> block, so it runs only when the
  routine returned.
\<close>

definition disableModule :: "'w FeatureModule \<Rightarrow> 'w ModuleManager \<Rightarrow> 'w ModuleManager" where
  "disableModule m s =
     (if module_id m \<notin> activeModules s then s
      else (case disable m (page s) of
              Returned w \<Rightarrow>
                s\<lparr>page := w,
                  invoked := invoked s @ [DisableCalled (module_id m)],
                  activeModules := activeModules s - {module_id m},
                  console := console s @ [ConsoleLog (''[Fallen Tweaks] Disabled: '' @ module_id m)]\<rparr>
            | Threw err w \<Rightarrow>
                s\<lparr>page := w,
                  invoked := invoked s @ [DisableCalled (module_id m)],
                  console := console s @
                    [ConsoleError (''[Fallen Tweaks] Failed to disable \"'' @ module_id m @ ''\":'') err]\<rparr>))"

text \<open>
  A \<^verbatim>\<open>Record<string, boolean>\<close> is a map; \<^verbatim>\<open>states[id] ?? false\<close> and the truth
  test \<^verbatim>\<open>if (states[id])\<close> both read a missing key as false.
\<close>

type_synonym ModuleStates = "string \<rightharpoonup> bool"

definition flag :: "ModuleStates \<Rightarrow> string \<Rightarrow> bool" where
  "flag states i = (case states i of None \<Rightarrow> False | Some b \<Rightarrow> b)"

text \<open>
  The body of the \<^verbatim>\<open>for\<close> loop of \<^verbatim>\<open>initialize\<close>, and the loop. The calls of
  \<^verbatim>\<open>enableModule\<close> are not awaited: the loop goes on with each of them suspended.
\<close>

definition initStep :: "ModuleStates \<Rightarrow> 'w FeatureModule \<Rightarrow> 'w ModuleManager \<Rightarrow> 'w ModuleManager" where
  "initStep states m s = (if flag states (module_id m) then enableModule m s else s)"

fun initLoop :: "ModuleStates \<Rightarrow> 'w FeatureModule list \<Rightarrow> 'w ModuleManager \<Rightarrow> 'w ModuleManager" where
  "initLoop states [] s = s"
| "initLoop states (m # ms) s = initLoop states ms (initStep states m s)"

definition initialize :: "ModuleStates \<Rightarrow> 'w ModuleManager \<Rightarrow> 'w ModuleManager" where
  "initialize states s = initLoop states (modules s) s"

text \<open>
  The listener that \<^verbatim>\<open>initialize\<close> passes to \<^verbatim>\<open>onStorageChanged\<close>. The change record
  of the key \<^verbatim>\<open>moduleStates\<close> may be missing, and so may each of its two values.
\<close>

record ModuleStatesChange =
  oldValue :: "ModuleStates option"
  newValue :: "ModuleStates option"

definition changeStep ::
  "ModuleStates \<Rightarrow> ModuleStates \<Rightarrow> 'w FeatureModule \<Rightarrow> 'w ModuleManager \<Rightarrow> 'w ModuleManager" where
  "changeStep oldStates newStates m s =
     (let wasEnabled = flag oldStates (module_id m);
          isEnabled = flag newStates (module_id m)
      in if isEnabled \<and> \<not> wasEnabled then enableModule m s
         else if \<not> isEnabled \<and> wasEnabled then disableModule m s
         else s)"

fun changeLoop ::
  "ModuleStates \<Rightarrow> ModuleStates \<Rightarrow> 'w FeatureModule list \<Rightarrow> 'w ModuleManager \<Rightarrow> 'w ModuleManager" where
  "changeLoop oldStates newStates [] s = s"
| "changeLoop oldStates newStates (m # ms) s =
     changeLoop oldStates newStates ms (changeStep oldStates newStates m s)"

definition onModuleStatesChanged ::
  "ModuleStatesChange option \<Rightarrow> 'w ModuleManager \<Rightarrow> 'w ModuleManager" where
  "onModuleStatesChanged change s =
     (case change of
        None \<Rightarrow> s
      | Some c \<Rightarrow>
          (case newValue c of
             None \<Rightarrow> s
           | Some newStates \<Rightarrow>
               (let oldStates = (case oldValue c of None \<Rightarrow> Map.empty | Some old \<Rightarrow> old)
                in changeLoop oldStates newStates (modules s) s)))"

subsection \<open>Two concrete units\<close>

text \<open>
  A page that only counts the injected elements, a unit whose \<^verbatim>\<open>disable\<close> throws and a
  unit whose routines both return; a manager in which both are registered and active.
\<close>

definition brokenUnit :: "nat FeatureModule" where
  "brokenUnit =
     \<lparr>module_id = ''card-favourites'',
      enable = (\<lambda>w. Returned (w + 1)),
      disable = (\<lambda>w. Threw ''TypeError'' w)\<rparr>"

definition soundUnit :: "nat FeatureModule" where
  "soundUnit =
     \<lparr>module_id = ''bazaar-total'',
      enable = (\<lambda>w. Returned (w + 1)),
      disable = (\<lambda>w. Returned (w - 1))\<rparr>"

definition bothActive :: "nat ModuleManager" where
  "bothActive =
     \<lparr>modules = [brokenUnit, soundUnit],
      activeModules = {''card-favourites'', ''bazaar-total''},
      awaiting = [],
      page = 2, console = [], invoked = []\<rparr>"

definition allOn :: ModuleStates where
  "allOn = [''card-favourites'' \<mapsto> True, ''bazaar-total'' \<mapsto> True]"

definition allOff :: ModuleStates where
  "allOff = [''card-favourites'' \<mapsto> False, ''bazaar-total'' \<mapsto> False]"

definition noneActive :: "nat ModuleManager" where
  "noneActive = register soundUnit (register brokenUnit (newModuleManager 0))"

section \<open>Shared constants and the preference store (shared/constants, shared/storage)\<close>

record ModuleInfo =
  info_id :: string
  name :: string
  description :: string

definition MODULE_REGISTRY :: "ModuleInfo list" where
  "MODULE_REGISTRY =
     [\<lparr>info_id = ''bazaar-total'',
       name = ''Bazaar Total Value'',
       description = ''Shows the total value of your items when selling at the Bazaar.''\<rparr>,
      \<lparr>info_id = ''card-favourites'',
       name = ''Opportunity Card Favourites'',
       description = ''Mark opportunity cards as favourites or ones to avoid. Favourites are highlighted; avoided cards are dimmed.''\<rparr>,
      \<lparr>info_id = ''quality-favourites'',
       name = ''Quality Favourites'',
       description = ''Pin your favourite qualities to the top of each category list for quick access.''\<rparr>]"

datatype CardPref = Favourite | Avoid

text \<open>
  The contents of \<^verbatim>\<open>chrome.storage.sync\<close> under the three keys of \<^verbatim>\<open>StorageSchema\<close>.
  A key that was never set is absent from the object that \<^verbatim>\<open>get\<close> returns: \<open>None\<close>.
\<close>

record SyncStorage =
  moduleStates :: "ModuleStates option"
  cardPreferences :: "(string \<rightharpoonup> CardPref) option"
  favouriteQualities :: "string list option"

text \<open>\<^verbatim>\<open>getDefault\<close>, \<^verbatim>\<open>getStorage\<close> and \<^verbatim>\<open>setStorage\<close>, one instance for each key.\<close>

definition getDefault_moduleStates :: ModuleStates where
  "getDefault_moduleStates = Map.empty"

definition getDefault_cardPreferences :: "string \<rightharpoonup> CardPref" where
  "getDefault_cardPreferences = Map.empty"

definition getDefault_favouriteQualities :: "string list" where
  "getDefault_favouriteQualities = []"

definition getStorage_moduleStates :: "SyncStorage \<Rightarrow> ModuleStates" where
  "getStorage_moduleStates st =
     (case moduleStates st of None \<Rightarrow> getDefault_moduleStates | Some v \<Rightarrow> v)"

definition getStorage_cardPreferences :: "SyncStorage \<Rightarrow> (string \<rightharpoonup> CardPref)" where
  "getStorage_cardPreferences st =
     (case cardPreferences st of None \<Rightarrow> getDefault_cardPreferences | Some v \<Rightarrow> v)"

definition getStorage_favouriteQualities :: "SyncStorage \<Rightarrow> string list" where
  "getStorage_favouriteQualities st =
     (case favouriteQualities st of None \<Rightarrow> getDefault_favouriteQualities | Some v \<Rightarrow> v)"

definition setStorage_moduleStates :: "ModuleStates \<Rightarrow> SyncStorage \<Rightarrow> SyncStorage" where
  "setStorage_moduleStates v st = st\<lparr>moduleStates := Some v\<rparr>"

definition setStorage_cardPreferences :: "(string \<rightharpoonup> CardPref) \<Rightarrow> SyncStorage \<Rightarrow> SyncStorage" where
  "setStorage_cardPreferences v st = st\<lparr>cardPreferences := Some v\<rparr>"

definition setStorage_favouriteQualities :: "string list \<Rightarrow> SyncStorage \<Rightarrow> SyncStorage" where
  "setStorage_favouriteQualities v st = st\<lparr>favouriteQualities := Some v\<rparr>"

text \<open>
  \<^verbatim>\<open>getAllModuleStates\<close>: the loop over the registry writes
  \<^verbatim>\<open>result[mod.id] = states[mod.id] ?? false\<close> into a fresh object.
\<close>

fun fillStates :: "ModuleStates \<Rightarrow> ModuleInfo list \<Rightarrow> ModuleStates \<Rightarrow> ModuleStates" where
  "fillStates states [] result = result"
| "fillStates states (m # ms) result =
     fillStates states ms (result(info_id m \<mapsto> flag states (info_id m)))"

definition getAllModuleStates :: "SyncStorage \<Rightarrow> ModuleStates" where
  "getAllModuleStates st = fillStates (getStorage_moduleStates st) MODULE_REGISTRY Map.empty"

text \<open>
  \<^verbatim>\<open>initializeStorage\<close>: reads the key \<^verbatim>\<open>moduleStates\<close> only; when it is absent, one
  \<^verbatim>\<open>set\<close> writes all three keys.
\<close>

fun seedDefaults :: "ModuleInfo list \<Rightarrow> ModuleStates \<Rightarrow> ModuleStates" where
  "seedDefaults [] defaults = defaults"
| "seedDefaults (m # ms) defaults = seedDefaults ms (defaults(info_id m \<mapsto> False))"

definition initializeStorage :: "SyncStorage \<Rightarrow> SyncStorage" where
  "initializeStorage st =
     (case moduleStates st of
        None \<Rightarrow>
          st\<lparr>moduleStates := Some (seedDefaults MODULE_REGISTRY Map.empty),
            cardPreferences := Some Map.empty,
            favouriteQualities := Some []\<rparr>
      | Some v \<Rightarrow> st)"

text \<open>
  Which stores \<^verbatim>\<open>initializeStorage\<close> can meet. The keys \<^verbatim>\<open>cardPreferences\<close> and
  \<^verbatim>\<open>favouriteQualities\<close> are written by the two units that own them and by
  \<^verbatim>\<open>initializeStorage\<close>; a unit runs only when the manager enabled it, on the flag
  stored for it under \<^verbatim>\<open>moduleStates\<close>; and nothing in the extension removes a key. So
  a store in which \<^verbatim>\<open>moduleStates\<close> is absent is one in which the other two keys are
  absent too.
\<close>

definition seededFirst :: "SyncStorage \<Rightarrow> bool" where
  "seededFirst st =
     (moduleStates st = None \<longrightarrow> cardPreferences st = None \<and> favouriteQualities st = None)"

subsection \<open>Concrete stores\<close>

definition emptyStorage :: SyncStorage where
  "emptyStorage = \<lparr>moduleStates = None, cardPreferences = None, favouriteQualities = None\<rparr>"

text \<open>
  A store with a pinned list and no enabled-state key, which the extension itself does
  not produce.
\<close>

definition pinsOnlyStorage :: SyncStorage where
  "pinsOnlyStorage =
     \<lparr>moduleStates = None, cardPreferences = None, favouriteQualities = Some [''777'', ''142'']\<rparr>"

text \<open>A store with one unit enabled and an entry for an id that is not in the registry.\<close>

definition legacyStorage :: SyncStorage where
  "legacyStorage =
     \<lparr>moduleStates = Some [''bazaar-total'' \<mapsto> True, ''retired-module'' \<mapsto> True],
      cardPreferences = Some [''x1'' \<mapsto> Favourite],
      favouriteQualities = Some [''777'']\<rparr>"

section \<open>Quality favourites (content/modules/quality-favourites)\<close>

text \<open>
  The module-level variables \<^verbatim>\<open>favouriteIds\<close> and \<^verbatim>\<open>draggedId\<close>, and the store the
  unit writes to. What the unit draws (\<^verbatim>\<open>refreshAll\<close>, the drop indicators) is rebuilt
  from \<^verbatim>\<open>favouriteIds\<close> and the page and is not part of this state.
\<close>

record QualityFavourites =
  favouriteIds :: "string list"
  draggedId :: "string option"
  storage :: SyncStorage

definition isFavourite :: "string \<Rightarrow> QualityFavourites \<Rightarrow> bool" where
  "isFavourite qualityId s = (qualityId \<in> set (favouriteIds s))"

definition toggleFavourite :: "string \<Rightarrow> QualityFavourites \<Rightarrow> QualityFavourites" where
  "toggleFavourite qualityId s =
     (let ids = (if isFavourite qualityId s
                 then filter (\<lambda>i. i \<noteq> qualityId) (favouriteIds s)
                 else favouriteIds s @ [qualityId])
      in s\<lparr>favouriteIds := ids, storage := setStorage_favouriteQualities ids (storage s)\<rparr>)"

text \<open>\<^verbatim>\<open>Array.prototype.indexOf\<close>: the first index of the element, or \<open>-1\<close>.\<close>

fun indexOf :: "'a list \<Rightarrow> 'a \<Rightarrow> int" where
  "indexOf [] x = - 1"
| "indexOf (y # ys) x =
     (if y = x then 0 else (let i = indexOf ys x in if i = - 1 then - 1 else i + 1))"

text \<open>
  \<^verbatim>\<open>xs.splice(start, 0, x)\<close>: a negative start counts from the end, and the start is
  clamped to the bounds of the array; nothing is deleted and \<open>x\<close> is inserted there.
\<close>

definition splice_insert :: "int \<Rightarrow> 'a \<Rightarrow> 'a list \<Rightarrow> 'a list" where
  "splice_insert start x xs =
     (let n = int (length xs);
          k = (if start < 0 then max (n + start) 0 else min start n)
      in take (nat k) xs @ [x] @ drop (nat k) xs)"

definition reorderFavourite ::
  "string \<Rightarrow> string \<Rightarrow> bool \<Rightarrow> QualityFavourites \<Rightarrow> QualityFavourites" where
  "reorderFavourite movedId targetId insertBefore s =
     (let filtered = filter (\<lambda>i. i \<noteq> movedId) (favouriteIds s);
          targetIndex = indexOf filtered targetId
      in if targetIndex = - 1 then s
         else (let insertIndex = (if insertBefore then targetIndex else targetIndex + 1);
                   ids = splice_insert insertIndex movedId filtered
               in s\<lparr>favouriteIds := ids,
                    storage := setStorage_favouriteQualities ids (storage s)\<rparr>))"

text \<open>
  The drag handlers that \<^verbatim>\<open>buildFavouritesGroup\<close> attaches to the clone of the quality
  \<open>qualityId\<close>. \<^verbatim>\<open>!draggedId\<close> holds for \<^verbatim>\<open>null\<close> and for the empty string. The flag
  \<open>insertBefore\<close> is the outcome of \<^verbatim>\<open>e.clientY < midY\<close>, the pointer being above the
  vertical midpoint of the clone.
\<close>

definition dragstart :: "string \<Rightarrow> QualityFavourites \<Rightarrow> QualityFavourites" where
  "dragstart qualityId s = s\<lparr>draggedId := Some qualityId\<rparr>"

definition dragend :: "QualityFavourites \<Rightarrow> QualityFavourites" where
  "dragend s = s\<lparr>draggedId := None\<rparr>"

definition dropOn :: "string \<Rightarrow> bool \<Rightarrow> QualityFavourites \<Rightarrow> QualityFavourites" where
  "dropOn qualityId insertBefore s =
     (case draggedId s of
        None \<Rightarrow> s
      | Some d \<Rightarrow>
          if d = [] \<or> d = qualityId then s
          else (reorderFavourite d qualityId insertBefore s)\<lparr>draggedId := None\<rparr>)"

subsection \<open>Concrete pinned lists\<close>

definition pinnedABC :: QualityFavourites where
  "pinnedABC =
     \<lparr>favouriteIds = [''a'', ''b'', ''c''], draggedId = None,
      storage = \<lparr>moduleStates = Some [''quality-favourites'' \<mapsto> True], cardPreferences = None,
                 favouriteQualities = Some [''a'', ''b'', ''c'']\<rparr>\<rparr>"

text \<open>A stored list in which an id occurs twice.\<close>

definition pinnedAAB :: QualityFavourites where
  "pinnedAAB =
     \<lparr>favouriteIds = [''a'', ''a'', ''b''], draggedId = None,
      storage = \<lparr>moduleStates = Some [''quality-favourites'' \<mapsto> True], cardPreferences = None,
                 favouriteQualities = Some [''a'', ''a'', ''b'']\<rparr>\<rparr>"

section \<open>Card favourites (content/modules/card-favourites)\<close>

text \<open>
  A card container is known to the preference logic by \<^verbatim>\<open>container.dataset.eventId\<close>
  only, which may be missing. The unit's state is the module-level variable
  \<^verbatim>\<open>cardPrefs\<close> and the store it writes to; the indicator and the overlay are drawn
  from \<^verbatim>\<open>cardPrefs\<close> after the write and are not part of this state.
\<close>

record CardContainer =
  eventId :: "string option"

record CardFavourites =
  cardPrefs :: "string \<rightharpoonup> CardPref"
  sync :: SyncStorage

definition getCardId :: "CardContainer \<Rightarrow> string option" where
  "getCardId container = eventId container"

text \<open>The first statement of \<^verbatim>\<open>enable\<close>: \<^verbatim>\<open>cardPrefs = await getStorage("cardPreferences")\<close>.\<close>

definition loadCardPrefs :: "SyncStorage \<Rightarrow> CardFavourites" where
  "loadCardPrefs st = \<lparr>cardPrefs = getStorage_cardPreferences st, sync = st\<rparr>"

text \<open>
  \<^verbatim>\<open>setCardPref\<close> and \<^verbatim>\<open>toggleCardPref\<close>. \<^verbatim>\<open>if (!cardId) return\<close> leaves for a missing
  id and for the empty string. \<^verbatim>\<open>pref === null\<close> deletes the entry.
\<close>

definition setCardPref :: "CardContainer \<Rightarrow> CardPref option \<Rightarrow> CardFavourites \<Rightarrow> CardFavourites" where
  "setCardPref container pref s =
     (case getCardId container of
        None \<Rightarrow> s
      | Some cardId \<Rightarrow>
          if cardId = [] then s
          else (let prefs = (case pref of
                               None \<Rightarrow> (cardPrefs s)(cardId := None)
                             | Some p \<Rightarrow> (cardPrefs s)(cardId \<mapsto> p))
                in s\<lparr>cardPrefs := prefs, sync := setStorage_cardPreferences prefs (sync s)\<rparr>))"

definition toggleCardPref :: "CardContainer \<Rightarrow> CardPref \<Rightarrow> CardFavourites \<Rightarrow> CardFavourites" where
  "toggleCardPref container pref s =
     (case getCardId container of
        None \<Rightarrow> s
      | Some cardId \<Rightarrow>
          if cardId = [] then s
          else (let current = cardPrefs s cardId
                in setCardPref container (if current = Some pref then None else Some pref) s))"

subsection \<open>A concrete card\<close>

definition cardX1 :: CardContainer where
  "cardX1 = \<lparr>eventId = Some ''x1''\<rparr>"

definition x1Avoided :: CardFavourites where
  "x1Avoided =
     loadCardPrefs \<lparr>moduleStates = Some [''card-favourites'' \<mapsto> True], cardPreferences = Some [''x1'' \<mapsto> Avoid],
                    favouriteQualities = None\<rparr>"

definition x1Favourite :: CardFavourites where
  "x1Favourite =
     loadCardPrefs \<lparr>moduleStates = Some [''card-favourites'' \<mapsto> True], cardPreferences = Some [''x1'' \<mapsto> Favourite],
                    favouriteQualities = None\<rparr>"

section \<open>JavaScript numbers\<close>

text \<open>
  A \<^verbatim>\<open>number\<close> is an IEEE 754 binary64 value: not-a-number, one of the two
  infinities, or a finite double, carried here by the real number it denotes. The two
  signs of zero are not told apart (no operation of the unit divides by a zero or
  prints its sign).
\<close>

datatype number = Finite real | PosInfinity | NegInfinity | NaN

text \<open>
  Rounding to the nearest double, ties to the even significand. For a positive \<open>a\<close>,
  \<open>exponentOf a\<close> is the \<open>e\<close> with \<open>2 ^ e \<le> a < 2 ^ (e + 1)\<close>; doubles with that
  exponent are the multiples of \<open>2 ^ (e - 52)\<close>, and below the exponent \<open>- 1022\<close> the
  spacing stays that of the subnormal range. A result of magnitude \<open>2 ^ 1024\<close> or
  more is an infinity.
\<close>

fun floorLog2 :: "nat \<Rightarrow> nat" where
  "floorLog2 n = (if n < 2 then 0 else Suc (floorLog2 (n div 2)))"

declare floorLog2.simps [simp del]

definition pow2 :: "int \<Rightarrow> real" where
  "pow2 e = (if 0 \<le> e then 2 ^ nat e else 1 / 2 ^ nat (- e))"

definition exponentOf :: "real \<Rightarrow> int" where
  "exponentOf a =
     (if 1 \<le> a then int (floorLog2 (nat \<lfloor>a\<rfloor>))
      else (let c = nat \<lceil>1 / a\<rceil>
            in if c \<le> 1 then 0 else - int (Suc (floorLog2 (c - 1)))))"

definition roundHalfEven :: "real \<Rightarrow> int" where
  "roundHalfEven x =
     (let f = \<lfloor>x\<rfloor>; r = x - of_int f
      in if r < 1 / 2 then f else if 1 / 2 < r then f + 1 else if even f then f else f + 1)"

definition roundDouble :: "real \<Rightarrow> number" where
  "roundDouble x =
     (if x = 0 then Finite 0
      else (let a = \<bar>x\<bar>;
                e = max (exponentOf a) (- 1022);
                q = e - 52;
                m = roundHalfEven (a / pow2 q);
                v = of_int m * pow2 q
            in if 2 ^ 1024 \<le> v then (if x < 0 then NegInfinity else PosInfinity)
               else Finite (if x < 0 then - v else v)))"

text \<open>
  The operators \<^verbatim>\<open>+\<close> and \<^verbatim>\<open>*\<close> on numbers: the exact result, rounded. NaN is
  absorbing, infinities of opposite sign add to NaN, and an infinity times zero is NaN.
\<close>

fun fadd :: "number \<Rightarrow> number \<Rightarrow> number" where
  "fadd (Finite x) (Finite y) = roundDouble (x + y)"
| "fadd NaN y = NaN"
| "fadd x NaN = NaN"
| "fadd PosInfinity NegInfinity = NaN"
| "fadd NegInfinity PosInfinity = NaN"
| "fadd PosInfinity y = PosInfinity"
| "fadd x PosInfinity = PosInfinity"
| "fadd NegInfinity y = NegInfinity"
| "fadd x NegInfinity = NegInfinity"

definition infinityTimes :: "bool \<Rightarrow> real \<Rightarrow> number" where
  "infinityTimes negative y =
     (if y = 0 then NaN
      else if negative = (y < 0) then PosInfinity else NegInfinity)"

fun fmul :: "number \<Rightarrow> number \<Rightarrow> number" where
  "fmul (Finite x) (Finite y) = roundDouble (x * y)"
| "fmul NaN y = NaN"
| "fmul x NaN = NaN"
| "fmul PosInfinity (Finite y) = infinityTimes False y"
| "fmul NegInfinity (Finite y) = infinityTimes True y"
| "fmul (Finite x) PosInfinity = infinityTimes False x"
| "fmul (Finite x) NegInfinity = infinityTimes True x"
| "fmul PosInfinity PosInfinity = PosInfinity"
| "fmul NegInfinity NegInfinity = PosInfinity"
| "fmul PosInfinity NegInfinity = NegInfinity"
| "fmul NegInfinity PosInfinity = NegInfinity"

section \<open>Bazaar total: the parsers (content/modules/bazaar-total)\<close>

text \<open>
  A string is a list of code units, here the code units below 256. The white space and
  line terminators that \<^verbatim>\<open>trim\<close>, \<^verbatim>\<open>parseInt\<close> and \<^verbatim>\<open>parseFloat\<close> strip are, in that
  range, TAB, LF, VT, FF, CR, SP and NBSP.
\<close>

definition isWhiteSpace :: "char \<Rightarrow> bool" where
  "isWhiteSpace c =
     (c \<in> set [CHR 0x09, CHR 0x0A, CHR 0x0B, CHR 0x0C, CHR 0x0D, CHR 0x20, CHR 0xA0])"

definition trimStart :: "string \<Rightarrow> string" where
  "trimStart s = dropWhile isWhiteSpace s"

definition trimEnd :: "string \<Rightarrow> string" where
  "trimEnd s = rev (dropWhile isWhiteSpace (rev s))"

definition trim :: "string \<Rightarrow> string" where
  "trim s = trimEnd (trimStart s)"

definition isDigit :: "char \<Rightarrow> bool" where
  "isDigit c = (c \<in> set ''0123456789'')"

definition digitValue :: "char \<Rightarrow> nat" where
  "digitValue c = of_char c - of_char (CHR ''0'')"

text \<open>The value of a string of decimal digits, most significant digit first.\<close>

definition digitsValue :: "string \<Rightarrow> nat" where
  "digitsValue ds = foldl (\<lambda>acc c. 10 * acc + digitValue c) 0 ds"

text \<open>
  An optional sign in front of a numeral: whether it is a minus, and the rest.
\<close>

definition stripSign :: "string \<Rightarrow> bool \<times> string" where
  "stripSign s =
     (case s of
        [] \<Rightarrow> (False, [])
      | c # r \<Rightarrow>
          if c = CHR ''-'' then (True, r)
          else if c = CHR ''+'' then (False, r)
          else (False, s))"

text \<open>
  \<^verbatim>\<open>parseInt(string, 10)\<close>: leading white space is skipped, a sign is read, the
  longest prefix of decimal digits is the numeral; with no digit the result is NaN,
  otherwise the double nearest to the signed numeral. With radix 10 no \<^verbatim>\<open>0x\<close> prefix is
  recognised.
\<close>

definition parseInt10 :: "string \<Rightarrow> number" where
  "parseInt10 s =
     (let (negative, r) = stripSign (trimStart s);
          z = takeWhile isDigit r
      in if z = [] then NaN
         else roundDouble (if negative then - of_nat (digitsValue z) else of_nat (digitsValue z)))"

text \<open>
  \<^verbatim>\<open>parseFloat(string)\<close>: leading white space is skipped and the longest prefix that
  is a \<^verbatim>\<open>StrDecimalLiteral\<close> is read: a sign, then either the word \<^verbatim>\<open>Infinity\<close>, or
  digits with an optional fraction, or a point followed by digits, each with an
  optional exponent part. An \<^verbatim>\<open>e\<close> that no digit follows is not part of the literal.
  With no such prefix the result is NaN, otherwise the double nearest to the value of
  the literal.
\<close>

definition exponentPart :: "string \<Rightarrow> int" where
  "exponentPart s =
     (case s of
        [] \<Rightarrow> 0
      | c # r \<Rightarrow>
          if c = CHR ''e'' \<or> c = CHR ''E''
          then (let (negative, r') = stripSign r;
                    ds = takeWhile isDigit r'
                in if ds = [] then 0
                   else if negative then - int (digitsValue ds) else int (digitsValue ds))
          else 0)"

definition power10 :: "int \<Rightarrow> real" where
  "power10 e = (if 0 \<le> e then 10 ^ nat e else 1 / 10 ^ nat (- e))"

definition strUnsignedDecimal :: "string \<Rightarrow> real option" where
  "strUnsignedDecimal s =
     (let ip = takeWhile isDigit s;
          r1 = dropWhile isDigit s;
          (fp, r2) = (case r1 of
                        [] \<Rightarrow> ([], [])
                      | c # r \<Rightarrow>
                          if c = CHR ''.''
                          then (if ip = [] \<and> takeWhile isDigit r = [] then ([], r1)
                                else (takeWhile isDigit r, dropWhile isDigit r))
                          else ([], r1))
      in if ip = [] \<and> fp = [] then None
         else Some ((of_nat (digitsValue ip) + of_nat (digitsValue fp) / 10 ^ length fp)
                    * power10 (exponentPart r2)))"

definition parseFloat :: "string \<Rightarrow> number" where
  "parseFloat s =
     (let (negative, r) = stripSign (trimStart s)
      in if take 8 r = ''Infinity'' then (if negative then NegInfinity else PosInfinity)
         else (case strUnsignedDecimal r of
                 None \<Rightarrow> NaN
               | Some v \<Rightarrow> roundDouble (if negative then - v else v)))"

text \<open>\<^verbatim>\<open>Number.isNaN\<close>, and the two parsers of the unit.\<close>

definition isNaN :: "number \<Rightarrow> bool" where
  "isNaN n = (n = NaN)"

definition parseQuantity :: "string \<Rightarrow> number" where
  "parseQuantity text =
     (let cleaned = trim (filter (\<lambda>c. c \<noteq> CHR '','') text);
          n = parseInt10 cleaned
      in if isNaN n then Finite 0 else n)"

definition parsePrice :: "string \<Rightarrow> number" where
  "parsePrice text =
     (let n = parseFloat (trim text)
      in if isNaN n then Finite 0 else n)"

subsection \<open>What counts as a numeral\<close>

text \<open>
  The two notions the claims about the parsers use, written from their wording and not
  from the parsers. A string has a numeric prefix when it starts with a decimal digit,
  or with a sign and then a decimal digit. A string parses as a decimal when, after an
  optional sign, it starts with a digit or with a point and then a digit. A string that
  starts with the word \<^verbatim>\<open>Infinity\<close> has no digit there and is neither.
\<close>

definition startsWithDigit :: "string \<Rightarrow> bool" where
  "startsWithDigit s = (case s of [] \<Rightarrow> False | c # r \<Rightarrow> isDigit c)"

definition hasNumericPrefix :: "string \<Rightarrow> bool" where
  "hasNumericPrefix s = startsWithDigit (snd (stripSign s))"

definition parsesAsDecimal :: "string \<Rightarrow> bool" where
  "parsesAsDecimal s =
     (let r = snd (stripSign s)
      in startsWithDigit r
         \<or> (case r of [] \<Rightarrow> False | c # r' \<Rightarrow> c = CHR ''.'' \<and> startsWithDigit r'))"

text \<open>Whether a string is, after an optional sign, the word \<^verbatim>\<open>Infinity\<close> and any rest.\<close>

definition namesInfinity :: "string \<Rightarrow> bool" where
  "namesInfinity s = (take 8 (snd (stripSign s)) = ''Infinity'')"

section \<open>Bazaar total: the sum (content/modules/bazaar-total)\<close>

text \<open>
  \<^verbatim>\<open>computeTotal\<close>: \<^verbatim>\<open>items.reduce((sum, item) => sum + item.quantity * item.price, 0)\<close>,
  a left fold that starts from 0; each step multiplies and then adds, in doubles.
\<close>

record Item =
  quantity :: number
  price :: number

definition computeTotal :: "Item list \<Rightarrow> number" where
  "computeTotal items =
     foldl (\<lambda>sum item. fadd sum (fmul (quantity item) (price item))) (Finite 0) items"

subsection \<open>Exact lines\<close>

text \<open>
  A number is an integer when it is finite and has no fractional part; an item is
  integral when its quantity and its price are (a scrip line is). The exact value of a
  line is the product of its two finite factors in the reals.
\<close>

definition isInteger :: "number \<Rightarrow> bool" where
  "isInteger n =
     (case n of
        Finite r \<Rightarrow> of_int \<lfloor>r\<rfloor> = r
      | PosInfinity \<Rightarrow> False
      | NegInfinity \<Rightarrow> False
      | NaN \<Rightarrow> False)"

definition integerItem :: "Item \<Rightarrow> bool" where
  "integerItem item = (isInteger (quantity item) \<and> isInteger (price item))"

definition exactLine :: "Item \<Rightarrow> real" where
  "exactLine item =
     (case (quantity item, price item) of
        (Finite q, Finite p) \<Rightarrow> q * p
      | _ \<Rightarrow> 0)"

subsection \<open>Concrete items\<close>

text \<open>
  The doubles that the price texts \<^verbatim>\<open>0.1\<close>, \<^verbatim>\<open>0.2\<close> and \<^verbatim>\<open>0.3\<close> denote, and three
  lines of one item each at these prices, listed in two orders.
\<close>

definition tenth :: real where
  "tenth = 3602879701896397 / 36028797018963968"

definition twoTenths :: real where
  "twoTenths = 3602879701896397 / 18014398509481984"

definition threeTenths :: real where
  "threeTenths = 5404319552844595 / 18014398509481984"

definition pricesAscending :: "Item list" where
  "pricesAscending =
     [\<lparr>quantity = Finite 1, price = Finite tenth\<rparr>,
      \<lparr>quantity = Finite 1, price = Finite twoTenths\<rparr>,
      \<lparr>quantity = Finite 1, price = Finite threeTenths\<rparr>]"

definition pricesDescending :: "Item list" where
  "pricesDescending =
     [\<lparr>quantity = Finite 1, price = Finite threeTenths\<rparr>,
      \<lparr>quantity = Finite 1, price = Finite twoTenths\<rparr>,
      \<lparr>quantity = Finite 1, price = Finite tenth\<rparr>]"

text \<open>Two scrip lines, 3 items at 2 scrip and 40 items at 5 scrip, in two orders.\<close>

definition scripLines :: "Item list" where
  "scripLines =
     [\<lparr>quantity = Finite 3, price = Finite 2\<rparr>,
      \<lparr>quantity = Finite 40, price = Finite 5\<rparr>]"

definition scripLinesSwapped :: "Item list" where
  "scripLinesSwapped =
     [\<lparr>quantity = Finite 40, price = Finite 5\<rparr>,
      \<lparr>quantity = Finite 3, price = Finite 2\<rparr>]"

section \<open>Bazaar total: the badge text (content/modules/bazaar-total)\<close>

subsection \<open>Rounding and dividing\<close>

text \<open>
  \<^verbatim>\<open>Math.round\<close> returns the integer nearest to its argument, a tie going to the larger
  one: \<open>\<lfloor>x + 1 / 2\<rfloor>\<close>, computed exactly (every double of magnitude \<open>2 ^ 52\<close> or more is an
  integer already). It leaves NaN and the infinities as they are.
\<close>

definition mathRound :: "number \<Rightarrow> number" where
  "mathRound n =
     (case n of
        Finite x \<Rightarrow> Finite (of_int \<lfloor>x + 1 / 2\<rfloor>)
      | PosInfinity \<Rightarrow> PosInfinity
      | NegInfinity \<Rightarrow> NegInfinity
      | NaN \<Rightarrow> NaN)"

text \<open>
  The operator \<^verbatim>\<open>/\<close>: the exact quotient, rounded. Zero by zero and infinity by infinity
  are NaN; a non-zero number by zero is an infinity (of the sign of the dividend, the
  zero being taken as positive).
\<close>

fun fdiv :: "number \<Rightarrow> number \<Rightarrow> number" where
  "fdiv (Finite x) (Finite y) =
     (if y = 0 then (if x = 0 then NaN else if x < 0 then NegInfinity else PosInfinity)
      else roundDouble (x / y))"
| "fdiv NaN y = NaN"
| "fdiv x NaN = NaN"
| "fdiv (Finite x) PosInfinity = Finite 0"
| "fdiv (Finite x) NegInfinity = Finite 0"
| "fdiv PosInfinity (Finite y) = (if y < 0 then NegInfinity else PosInfinity)"
| "fdiv NegInfinity (Finite y) = (if y < 0 then PosInfinity else NegInfinity)"
| "fdiv PosInfinity PosInfinity = NaN"
| "fdiv PosInfinity NegInfinity = NaN"
| "fdiv NegInfinity PosInfinity = NaN"
| "fdiv NegInfinity NegInfinity = NaN"

subsection \<open>Numbers as text\<close>

text \<open>The decimal digits of a natural number, most significant first.\<close>

definition digitChar :: "nat \<Rightarrow> char" where
  "digitChar d = ''0123456789'' ! d"

fun decimalDigits :: "nat \<Rightarrow> string" where
  "decimalDigits n = (if n < 10 then [digitChar n] else decimalDigits (n div 10) @ [digitChar (n mod 10)])"

declare decimalDigits.simps [simp del]

text \<open>
  \<^verbatim>\<open>Number.prototype.toString\<close>, for the numbers the unit prints with it: NaN, the
  infinities, and the integers below \<open>2 ^ 53\<close> in magnitude, whose text is their digits
  after an optional minus sign. The text of any other number (a fraction, or an integer
  of \<open>2 ^ 53\<close> or more, printed with the shortest digits that read back as the same
  double) is not modelled: the result is \<open>None\<close>.
\<close>

definition numberToString :: "number \<Rightarrow> string option" where
  "numberToString n =
     (case n of
        NaN \<Rightarrow> Some ''NaN''
      | PosInfinity \<Rightarrow> Some ''Infinity''
      | NegInfinity \<Rightarrow> Some ''-Infinity''
      | Finite x \<Rightarrow>
          if of_int \<lfloor>x\<rfloor> = x \<and> \<bar>x\<bar> < 2 ^ 53
          then Some ((if x < 0 then ''-'' else '''') @ decimalDigits (nat \<lfloor>\<bar>x\<bar>\<rfloor>))
          else None)"

text \<open>
  \<^verbatim>\<open>Number.prototype.toFixed\<close> with two fraction digits. A number that is not finite
  prints as \<^verbatim>\<open>toString\<close> prints it, and so does one of magnitude \<open>10 ^ 21\<close> or more.
  Otherwise, with \<open>a\<close> the magnitude, \<open>n\<close> is the integer for which \<open>n / 100 - a\<close> is
  as close to zero as possible, the larger one of two such; its digits are padded with
  zeros on the left to three at least, and the point goes before the last two.
\<close>

definition toFixed2 :: "number \<Rightarrow> string option" where
  "toFixed2 n =
     (case n of
        NaN \<Rightarrow> Some ''NaN''
      | PosInfinity \<Rightarrow> Some ''Infinity''
      | NegInfinity \<Rightarrow> Some ''-Infinity''
      | Finite x \<Rightarrow>
          (let s = (if x < 0 then ''-'' else '''');
               a = \<bar>x\<bar>
           in if 10 ^ 21 \<le> a
              then map_option (\<lambda>m. s @ m) (numberToString (Finite a))
              else (let n = nat \<lfloor>a * 100 + 1 / 2\<rfloor>;
                        m = decimalDigits n;
                        m' = (if length m \<le> 2 then replicate (3 - length m) (CHR ''0'') @ m else m);
                        k = length m'
                    in Some (s @ take (k - 2) m' @ ''.'' @ drop (k - 2) m'))))"

subsection \<open>Splitting, joining and separating\<close>

text \<open>
  \<^verbatim>\<open>String.prototype.split\<close> at a one-character separator, and
  \<^verbatim>\<open>Array.prototype.join\<close>.
\<close>

fun splitOn :: "char \<Rightarrow> string \<Rightarrow> string list" where
  "splitOn c [] = [[]]"
| "splitOn c (x # xs) =
     (if x = c then [] # splitOn c xs
      else (case splitOn c xs of
              [] \<Rightarrow> [[x]]
            | p # ps \<Rightarrow> (x # p) # ps))"

fun joinWith :: "string \<Rightarrow> string list \<Rightarrow> string" where
  "joinWith sep [] = []"
| "joinWith sep [p] = p"
| "joinWith sep (p # q # ps) = p @ sep @ joinWith sep (q # ps)"

text \<open>
  The replacement \<^verbatim>\<open>.replace(/\B(?=(\d{3})+(?!\d))/g, ",")\<close> puts a comma at every
  position of the text that is not a word boundary and is followed by a run of digits
  whose length, up to the first character that is not a digit, is a positive multiple
  of three. Such a position has a digit after it, which is a word character; so it is
  not a word boundary exactly when there is a character before it and that one is a
  word character too (a letter, a digit or the underscore). \<open>separate prev s\<close> copies
  \<open>s\<close>, whose preceding character is \<open>prev\<close>, with these commas put in.
\<close>

definition isWordChar :: "char \<Rightarrow> bool" where
  "isWordChar c =
     (c \<in> set ''abcdefghijklmnopqrstuvwxyzABCDEFGHIJKLMNOPQRSTUVWXYZ0123456789_'')"

fun separate :: "char option \<Rightarrow> string \<Rightarrow> string" where
  "separate prev [] = []"
| "separate prev (c # cs) =
     (if (case prev of None \<Rightarrow> False | Some b \<Rightarrow> isWordChar b)
         \<and> isDigit c
         \<and> length (takeWhile isDigit (c # cs)) mod 3 = 0
      then CHR '','' # c # separate (Some c) cs
      else c # separate (Some c) cs)"

definition thousands :: "string \<Rightarrow> string" where
  "thousands s = separate None s"

subsection \<open>formatCurrency\<close>

text \<open>
  For the currency \<^verbatim>\<open>Echoes\<close> the total is multiplied by 100, rounded to an integer,
  divided by 100 and printed with two fraction digits; the part of that text before the
  first point gets the commas. For any other currency the total is rounded to an integer
  and printed, with the commas. The result is \<open>None\<close> where the text of the number is
  not modelled.
\<close>

definition formatCurrency :: "number \<Rightarrow> string \<Rightarrow> string option" where
  "formatCurrency amount currency =
     (if currency = ''Echoes''
      then (let rounded = fdiv (mathRound (fmul amount (Finite 100))) (Finite 100)
            in case toFixed2 rounded of
                 None \<Rightarrow> None
               | Some str \<Rightarrow>
                   (case splitOn (CHR ''.'') str of
                      [] \<Rightarrow> None
                    | p # ps \<Rightarrow>
                        Some (joinWith ''.'' (thousands p # ps) @ '' Echoes'')))
      else (let rounded = mathRound amount
            in case numberToString rounded of
                 None \<Rightarrow> None
               | Some str \<Rightarrow> Some (thousands str @ '' '' @ currency)))"

subsection \<open>The text of an amount, as the specification words it\<close>

text \<open>
  A whole number with thousands separators: its digits in groups of three from the
  right, a comma between two groups. A count of cents as an amount with two decimal
  places: the whole part with thousands separators, a point, and two digits. A negative
  number has a minus sign in front.
\<close>

definition twoDigits :: "nat \<Rightarrow> string" where
  "twoDigits d = [digitChar (d div 10), digitChar (d mod 10)]"

definition threeDigits :: "nat \<Rightarrow> string" where
  "threeDigits d = digitChar (d div 100) # twoDigits (d mod 100)"

fun groupThousands :: "nat \<Rightarrow> string" where
  "groupThousands n =
     (if n < 1000 then decimalDigits n
      else groupThousands (n div 1000) @ '','' @ threeDigits (n mod 1000))"

declare groupThousands.simps [simp del]

definition signOf :: "int \<Rightarrow> string" where
  "signOf k = (if k < 0 then ''-'' else [])"

definition renderCents :: "int \<Rightarrow> string" where
  "renderCents cents =
     signOf cents @ groupThousands (nat \<bar>cents\<bar> div 100) @ ''.'' @ twoDigits (nat \<bar>cents\<bar> mod 100)"

definition renderWhole :: "int \<Rightarrow> string" where
  "renderWhole units = signOf units @ groupThousands (nat \<bar>units\<bar>)"

subsection \<open>Concrete amounts\<close>

text \<open>
  The doubles that the number texts \<^verbatim>\<open>0.005\<close>, \<^verbatim>\<open>49.7\<close>, \<^verbatim>\<open>1234.56\<close> and \<^verbatim>\<open>0.015\<close>
  denote.
\<close>

definition halfCent :: real where
  "halfCent = 5764607523034235 / 1152921504606846976"

definition fortyNineSeven :: real where
  "fortyNineSeven = 3497326585629901 / 70368744177664"

definition docExample :: real where
  "docExample = 2714826150374277 / 2199023255552"

definition centAndHalf :: real where
  "centAndHalf = 1080863910568919 / 72057594037927936"

section \<open>Facts about the lifecycle manager\<close>

lemma enableModule_modules [simp]: "modules (enableModule m s) = modules s"
  by (simp add: enableModule_def split: outcome.splits)

lemma disableModule_modules [simp]: "modules (disableModule m s) = modules s"
  by (simp add: disableModule_def split: outcome.splits)

lemma changeStep_modules [simp]: "modules (changeStep old new m s) = modules s"
  by (simp add: changeStep_def Let_def)

lemma changeLoop_modules [simp]: "modules (changeLoop old new ms s) = modules s"
  by (induction ms arbitrary: s) simp_all

lemma changeStep_other_active:
  "module_id m \<noteq> i \<Longrightarrow> (i \<in> activeModules (changeStep old new m s)) = (i \<in> activeModules s)"
  by (auto simp: changeStep_def Let_def enableModule_def disableModule_def split: outcome.splits)

lemma changeStep_other_calls:
  "module_id m \<noteq> i \<Longrightarrow>
   count_list (invoked (changeStep old new m s)) (DisableCalled i) = count_list (invoked s) (DisableCalled i) \<and>
   count_list (invoked (changeStep old new m s)) (EnableCalled i) = count_list (invoked s) (EnableCalled i)"
  by (auto simp: changeStep_def Let_def enableModule_def disableModule_def split: outcome.splits)

lemma changeLoop_other_calls:
  "i \<notin> set (map module_id ms) \<Longrightarrow>
   count_list (invoked (changeLoop old new ms s)) (DisableCalled i) = count_list (invoked s) (DisableCalled i) \<and>
   count_list (invoked (changeLoop old new ms s)) (EnableCalled i) = count_list (invoked s) (EnableCalled i)"
proof (induction ms arbitrary: s)
  case Nil
  then show ?case by simp
next
  case (Cons m ms)
  then have "module_id m \<noteq> i" and "i \<notin> set (map module_id ms)" by auto
  then show ?case using Cons.IH [of "changeStep old new m s"] changeStep_other_calls [of m i old new s]
    by simp
qed

lemma changeStep_disables:
  assumes "module_id u \<in> activeModules s" "flag old (module_id u)" "\<not> flag new (module_id u)"
  shows "count_list (invoked (changeStep old new u s)) (DisableCalled (module_id u)) =
           count_list (invoked s) (DisableCalled (module_id u)) + 1"
  using assms by (auto simp: changeStep_def Let_def disableModule_def split: outcome.splits)

lemma changeStep_enables:
  assumes "module_id u \<notin> activeModules s" "\<not> flag old (module_id u)" "flag new (module_id u)"
  shows "count_list (invoked (changeStep old new u s)) (EnableCalled (module_id u)) =
           count_list (invoked s) (EnableCalled (module_id u)) + 1"
  using assms by (auto simp: changeStep_def Let_def enableModule_def split: outcome.splits)

lemma changeLoop_disables:
  assumes "distinct (map module_id ms)" "u \<in> set ms"
    "module_id u \<in> activeModules s" "flag old (module_id u)" "\<not> flag new (module_id u)"
  shows "count_list (invoked (changeLoop old new ms s)) (DisableCalled (module_id u)) =
           count_list (invoked s) (DisableCalled (module_id u)) + 1"
  using assms
proof (induction ms arbitrary: s)
  case Nil
  then show ?case by simp
next
  case (Cons m ms)
  show ?case
  proof (cases "u = m")
    case True
    have "module_id u \<notin> set (map module_id ms)" using Cons.prems(1) True by simp
    then show ?thesis
      using changeLoop_other_calls [of "module_id u" ms old new "changeStep old new m s"]
        changeStep_disables [OF Cons.prems(3,4,5)] True by simp
  next
    case False
    then have in_ms: "u \<in> set ms" using Cons.prems(2) by simp
    then have ne: "module_id m \<noteq> module_id u" using Cons.prems(1) by auto
    have "module_id u \<in> activeModules (changeStep old new m s)"
      using changeStep_other_active [OF ne] Cons.prems(3) by simp
    then show ?thesis
      using Cons.IH [of "changeStep old new m s"] in_ms Cons.prems changeStep_other_calls [OF ne, of old new s]
      by simp
  qed
qed

lemma changeLoop_enables:
  assumes "distinct (map module_id ms)" "u \<in> set ms"
    "module_id u \<notin> activeModules s" "\<not> flag old (module_id u)" "flag new (module_id u)"
  shows "count_list (invoked (changeLoop old new ms s)) (EnableCalled (module_id u)) =
           count_list (invoked s) (EnableCalled (module_id u)) + 1"
  using assms
proof (induction ms arbitrary: s)
  case Nil
  then show ?case by simp
next
  case (Cons m ms)
  show ?case
  proof (cases "u = m")
    case True
    have "module_id u \<notin> set (map module_id ms)" using Cons.prems(1) True by simp
    then show ?thesis
      using changeLoop_other_calls [of "module_id u" ms old new "changeStep old new m s"]
        changeStep_enables [OF Cons.prems(3,4,5)] True by simp
  next
    case False
    then have in_ms: "u \<in> set ms" using Cons.prems(2) by simp
    then have ne: "module_id m \<noteq> module_id u" using Cons.prems(1) by auto
    have "module_id u \<notin> activeModules (changeStep old new m s)"
      using changeStep_other_active [OF ne] Cons.prems(3) by simp
    then show ?thesis
      using Cons.IH [of "changeStep old new m s"] in_ms Cons.prems changeStep_other_calls [OF ne, of old new s]
      by simp
  qed
qed

lemma register_distinct:
  "distinct (map module_id (modules s)) \<Longrightarrow> distinct (map module_id (modules (register m s)))"
  by (simp add: register_def has_module_def)

lemma changeLoop_other_active:
  "i \<notin> set (map module_id ms) \<Longrightarrow>
   (i \<in> activeModules (changeLoop old new ms s)) = (i \<in> activeModules s)"
proof (induction ms arbitrary: s)
  case Nil
  then show ?case by simp
next
  case (Cons m ms)
  then have "module_id m \<noteq> i" and "i \<notin> set (map module_id ms)" by auto
  then show ?case
    using Cons.IH [of "changeStep old new m s"] changeStep_other_active [of m i old new s]
    by simp
qed

lemma disableModule_threw:
  assumes "module_id m \<in> activeModules s" and "disable m (page s) = Threw err w"
  shows "disableModule m s =
     s\<lparr>page := w,
       invoked := invoked s @ [DisableCalled (module_id m)],
       console := console s @
         [ConsoleError (''[Fallen Tweaks] Failed to disable \"'' @ module_id m @ ''\":'') err]\<rparr>"
  using assms by (simp add: disableModule_def)

lemma onModuleStatesChanged_Some:
  "onModuleStatesChanged (Some \<lparr>oldValue = Some old, newValue = Some new\<rparr>) s =
     changeLoop old new (modules s) s"
  by (simp add: onModuleStatesChanged_def)

text \<open>
  Claim C1, as the code has it. When the \<^verbatim>\<open>disable\<close> routine of an active unit throws
  inside \<^verbatim>\<open>disableModule\<close>, the error is caught and logged with \<^verbatim>\<open>console.error\<close>
  and the unit stays in the active set (the \<^verbatim>\<open>delete\<close> is skipped); the registry is
  unchanged. The failure stops nothing: on any change event, every registered unit that
  is active and goes from enabled to disabled has its \<^verbatim>\<open>disable\<close> routine called exactly
  once, and every registered unit that is inactive and goes from disabled to enabled has
  its \<^verbatim>\<open>enable\<close> routine called exactly once, whatever the routines of the other units
  do; the listener leaves the registry as it is, so the same holds for every later event.
\<close>

theorem disable_failure_isolated:
  assumes reg: "distinct (map module_id (modules s))"
    and act: "module_id m \<in> activeModules s"
    and thr: "disable m (page s) = Threw err w"
  shows
    "console (disableModule m s) =
        console s @ [ConsoleError (''[Fallen Tweaks] Failed to disable \"'' @ module_id m @ ''\":'') err]
     \<and> activeModules (disableModule m s) = activeModules s
     \<and> module_id m \<in> activeModules (disableModule m s)
     \<and> modules (disableModule m s) = modules s
     \<and> (\<forall>u \<in> set (modules s). \<forall>old new.
           module_id u \<in> activeModules s \<and> flag old (module_id u) \<and> \<not> flag new (module_id u) \<longrightarrow>
           count_list (invoked (onModuleStatesChanged (Some \<lparr>oldValue = Some old, newValue = Some new\<rparr>) s))
               (DisableCalled (module_id u)) =
             count_list (invoked s) (DisableCalled (module_id u)) + 1)
     \<and> (\<forall>u \<in> set (modules s). \<forall>old new.
           module_id u \<notin> activeModules s \<and> \<not> flag old (module_id u) \<and> flag new (module_id u) \<longrightarrow>
           count_list (invoked (onModuleStatesChanged (Some \<lparr>oldValue = Some old, newValue = Some new\<rparr>) s))
               (EnableCalled (module_id u)) =
             count_list (invoked s) (EnableCalled (module_id u)) + 1)
     \<and> (\<forall>change. modules (onModuleStatesChanged change s) = modules s)"
proof -
  have single: "disableModule m s =
     s\<lparr>page := w,
       invoked := invoked s @ [DisableCalled (module_id m)],
       console := console s @
         [ConsoleError (''[Fallen Tweaks] Failed to disable \"'' @ module_id m @ ''\":'') err]\<rparr>"
    using act thr by (rule disableModule_threw)
  have mods: "\<forall>change. modules (onModuleStatesChanged change s) = modules s"
    by (simp add: onModuleStatesChanged_def Let_def split: option.splits)
  show ?thesis
    using single act mods changeLoop_disables [OF reg] changeLoop_enables [OF reg]
    by (simp add: onModuleStatesChanged_Some)
qed

theorem disable_failure_isolated_witness:
  "distinct (map module_id (modules bothActive))
   \<and> module_id brokenUnit \<in> activeModules bothActive
   \<and> disable brokenUnit (page bothActive) = Threw ''TypeError'' 2
   \<and> ''card-favourites'' \<in> activeModules (disableModule brokenUnit bothActive)
   \<and> console (disableModule brokenUnit bothActive) =
        [ConsoleError ''[Fallen Tweaks] Failed to disable \"card-favourites\":'' ''TypeError'']
   \<and> count_list (invoked (onModuleStatesChanged (Some \<lparr>oldValue = Some allOn, newValue = Some allOff\<rparr>) bothActive))
        (DisableCalled ''bazaar-total'') = 1"
proof -
  have reg: "distinct (map module_id (modules bothActive))"
    by (simp add: bothActive_def brokenUnit_def soundUnit_def)
  have act: "module_id brokenUnit \<in> activeModules bothActive"
    by (simp add: bothActive_def brokenUnit_def)
  have thr: "disable brokenUnit (page bothActive) = Threw ''TypeError'' 2"
    by (simp add: bothActive_def brokenUnit_def)
  have u: "soundUnit \<in> set (modules bothActive)"
    "module_id soundUnit \<in> activeModules bothActive \<and> flag allOn (module_id soundUnit) \<and> \<not> flag allOff (module_id soundUnit)"
    by (simp_all add: bothActive_def soundUnit_def flag_def allOn_def allOff_def)
  have id: "module_id soundUnit = ''bazaar-total''" "module_id brokenUnit = ''card-favourites''"
    "invoked bothActive = []" "console bothActive = []"
    by (simp_all add: soundUnit_def brokenUnit_def bothActive_def)
  from disable_failure_isolated [OF reg act thr] u id reg act thr
  show ?thesis by auto
qed

text \<open>
  Claim C1 as the specification words it says the unit is removed from the active set
  even when its \<^verbatim>\<open>disable\<close> routine throws. It is not: the unit with the throwing
  routine is still active after \<^verbatim>\<open>disableModule\<close>.
\<close>

theorem disable_failure_counterexample:
  "disable brokenUnit (page bothActive) = Threw ''TypeError'' 2
   \<and> ''card-favourites'' \<in> activeModules bothActive
   \<and> ''card-favourites'' \<in> activeModules (disableModule brokenUnit bothActive)"
  by (simp add: disableModule_def bothActive_def brokenUnit_def)

text \<open>
  A call of \<^verbatim>\<open>enableModule\<close> made while an earlier call for the same unit is still
  suspended finds the unit not yet in the active set, and calls the routine again.
\<close>

lemma enableModule_overlapping:
  assumes "module_id m \<notin> activeModules s"
    and "enable m (page s) = Returned w" and "enable m w = Returned w'"
  shows "module_id m \<notin> activeModules (enableModule m s)"
    and "count_list (invoked (enableModule m (enableModule m s))) (EnableCalled (module_id m)) =
           count_list (invoked s) (EnableCalled (module_id m)) + 2"
  using assms by (simp_all add: enableModule_def)

text \<open>
  Claim C4. \<^verbatim>\<open>enableModule\<close> on a unit that is in the active set returns at its guard:
  nothing changes, no routine is called and no call is left suspended.
  \<^verbatim>\<open>disableModule\<close> on a unit that is not in the active set changes nothing, so it
  calls no routine. A unit comes into the active set when a call of \<^verbatim>\<open>enableModule\<close>
  whose routine returned has resumed after its \<^verbatim>\<open>await\<close>; a second call made from
  then on is such a no-op, so the \<^verbatim>\<open>enable\<close> routine has been called exactly once in
  total.
\<close>

theorem enable_disable_idempotent:
  "(module_id m \<in> activeModules s \<longrightarrow> enableModule m s = s)
   \<and> (module_id m \<notin> activeModules s \<longrightarrow> disableModule m s = s)
   \<and> (module_id m \<notin> activeModules s \<and> enable m (page s) = Returned w \<longrightarrow>
        module_id m \<in> activeModules (enableModule_resume (module_id m) Fulfilled (enableModule m s))
        \<and> enableModule m (enableModule_resume (module_id m) Fulfilled (enableModule m s)) =
            enableModule_resume (module_id m) Fulfilled (enableModule m s)
        \<and> count_list
            (invoked (enableModule m (enableModule_resume (module_id m) Fulfilled (enableModule m s))))
            (EnableCalled (module_id m)) =
            count_list (invoked s) (EnableCalled (module_id m)) + 1)"
  by (simp add: enableModule_def disableModule_def enableModule_resume_def)

theorem enable_disable_idempotent_witness:
  "module_id soundUnit \<in> activeModules bothActive
   \<and> enableModule soundUnit bothActive = bothActive
   \<and> module_id soundUnit \<notin> activeModules noneActive
   \<and> disableModule soundUnit noneActive = noneActive
   \<and> enable soundUnit (page noneActive) = Returned 1
   \<and> ''bazaar-total'' \<in>
        activeModules (enableModule_resume ''bazaar-total'' Fulfilled (enableModule soundUnit noneActive))
   \<and> count_list
        (invoked (enableModule soundUnit
           (enableModule_resume ''bazaar-total'' Fulfilled (enableModule soundUnit noneActive))))
        (EnableCalled ''bazaar-total'') = 1"
proof -
  have a: "module_id soundUnit \<in> activeModules bothActive"
    by (simp add: bothActive_def soundUnit_def)
  have n: "module_id soundUnit \<notin> activeModules noneActive"
    by (simp add: noneActive_def register_def has_module_def newModuleManager_def)
  have r: "enable soundUnit (page noneActive) = Returned 1"
    by (simp add: noneActive_def register_def has_module_def newModuleManager_def soundUnit_def)
  have i: "invoked noneActive = []" "module_id soundUnit = ''bazaar-total''"
    by (simp_all add: noneActive_def register_def has_module_def newModuleManager_def soundUnit_def)
  have t1: "enableModule soundUnit bothActive = bothActive"
    using enable_disable_idempotent [of soundUnit bothActive] a by blast
  have t2: "disableModule soundUnit noneActive = noneActive"
    and t3: "module_id soundUnit \<in>
        activeModules (enableModule_resume (module_id soundUnit) Fulfilled (enableModule soundUnit noneActive))"
    and t4: "count_list
        (invoked (enableModule soundUnit
           (enableModule_resume (module_id soundUnit) Fulfilled (enableModule soundUnit noneActive))))
        (EnableCalled (module_id soundUnit)) =
          count_list (invoked noneActive) (EnableCalled (module_id soundUnit)) + 1"
    using enable_disable_idempotent [of soundUnit noneActive 1] n r by blast+
  have t3': "''bazaar-total'' \<in>
        activeModules (enableModule_resume ''bazaar-total'' Fulfilled (enableModule soundUnit noneActive))"
    using t3 by (simp only: i)
  have t5: "count_list
        (invoked (enableModule soundUnit
           (enableModule_resume ''bazaar-total'' Fulfilled (enableModule soundUnit noneActive))))
        (EnableCalled ''bazaar-total'') = 1"
    using t4 by (simp only: i count_list.simps)
  show ?thesis using a n r t1 t2 t3' t5 by blast
qed

section \<open>Facts about the preference store\<close>

lemma fillStates_apply:
  "fillStates states ms result i =
     (if i \<in> set (map info_id ms) then Some (flag states i) else result i)"
  by (induction ms arbitrary: result) auto

lemma seedDefaults_apply:
  "seedDefaults ms defaults i =
     (if i \<in> set (map info_id ms) then Some False else defaults i)"
  by (induction ms arbitrary: defaults) auto

lemma registry_ids:
  "map info_id MODULE_REGISTRY = [''bazaar-total'', ''card-favourites'', ''quality-favourites'']"
  by (simp add: MODULE_REGISTRY_def)

text \<open>
  Claim C10. Whatever the store holds under \<^verbatim>\<open>moduleStates\<close> (also nothing, which reads
  as the empty map), the key set of the map that \<^verbatim>\<open>getAllModuleStates\<close> returns is
  exactly the set of ids of \<^verbatim>\<open>MODULE_REGISTRY\<close>; a registered id maps to its stored
  boolean when it has one and to false otherwise; an id that is stored but not
  registered is not a key of the result.
\<close>

theorem getAllModuleStates_registry:
  "dom (getAllModuleStates st) = set (map info_id MODULE_REGISTRY)
   \<and> dom (getAllModuleStates st) = {''bazaar-total'', ''card-favourites'', ''quality-favourites''}
   \<and> (\<forall>i \<in> set (map info_id MODULE_REGISTRY).
         getAllModuleStates st i =
           Some (case getStorage_moduleStates st i of Some b \<Rightarrow> b | None \<Rightarrow> False))
   \<and> (\<forall>i. i \<notin> set (map info_id MODULE_REGISTRY) \<longrightarrow> getAllModuleStates st i = None)"
proof -
  have app: "\<And>i. getAllModuleStates st i =
      (if i \<in> set (map info_id MODULE_REGISTRY) then Some (flag (getStorage_moduleStates st) i) else None)"
    by (simp add: getAllModuleStates_def fillStates_apply)
  have d: "dom (getAllModuleStates st) = set (map info_id MODULE_REGISTRY)"
    by (auto simp: dom_def app)
  show ?thesis
    using d by (auto simp: app flag_def registry_ids)
qed

theorem getAllModuleStates_registry_witness:
  "''bazaar-total'' \<in> set (map info_id MODULE_REGISTRY)
   \<and> ''card-favourites'' \<in> set (map info_id MODULE_REGISTRY)
   \<and> ''retired-module'' \<notin> set (map info_id MODULE_REGISTRY)
   \<and> getStorage_moduleStates legacyStorage ''retired-module'' = Some True
   \<and> getAllModuleStates legacyStorage ''bazaar-total'' = Some True
   \<and> getAllModuleStates legacyStorage ''card-favourites'' = Some False
   \<and> getAllModuleStates legacyStorage ''retired-module'' = None"
proof -
  have m: "''bazaar-total'' \<in> set (map info_id MODULE_REGISTRY)"
    "''card-favourites'' \<in> set (map info_id MODULE_REGISTRY)"
    "''retired-module'' \<notin> set (map info_id MODULE_REGISTRY)"
    by (simp_all add: registry_ids)
  have s: "getStorage_moduleStates legacyStorage ''retired-module'' = Some True"
    "getStorage_moduleStates legacyStorage ''bazaar-total'' = Some True"
    "getStorage_moduleStates legacyStorage ''card-favourites'' = None"
    by (simp_all add: getStorage_moduleStates_def legacyStorage_def)
  from getAllModuleStates_registry [of legacyStorage] m s
  show ?thesis by auto
qed

lemma enabled_unit_seeded: "flag (getStorage_moduleStates st) i \<Longrightarrow> moduleStates st \<noteq> None"
  by (cases "moduleStates st")
    (simp_all add: getStorage_moduleStates_def getDefault_moduleStates_def flag_def)

text \<open>
  The stores of the extension are seeded first: the store of a fresh install is, every
  write of the enabled states keeps a store so, and so does a write of one of the other
  two keys by a unit that runs on its stored flag; after \<^verbatim>\<open>initializeStorage\<close> the key
  \<^verbatim>\<open>moduleStates\<close> is there for good.
\<close>

lemma seededFirst_kept:
  "seededFirst emptyStorage"
  "seededFirst (initializeStorage st)"
  "moduleStates (initializeStorage st) \<noteq> None"
  "seededFirst (setStorage_moduleStates states st)"
  "flag (getStorage_moduleStates st) i \<Longrightarrow> seededFirst (setStorage_cardPreferences prefs st)"
  "flag (getStorage_moduleStates st) i \<Longrightarrow> seededFirst (setStorage_favouriteQualities ids st)"
  using enabled_unit_seeded [of st i]
  by (auto simp: seededFirst_def emptyStorage_def initializeStorage_def setStorage_moduleStates_def
      setStorage_cardPreferences_def setStorage_favouriteQualities_def split: option.splits)

text \<open>
  The guard of \<^verbatim>\<open>initializeStorage\<close> looks at \<^verbatim>\<open>moduleStates\<close> only. A store with a
  pinned list and no enabled states is not seeded first; there the pinned list is
  replaced by the empty list.
\<close>

lemma initializeStorage_not_seeded_first:
  "\<not> seededFirst pinsOnlyStorage
   \<and> favouriteQualities pinsOnlyStorage = Some [''777'', ''142'']
   \<and> favouriteQualities (initializeStorage pinsOnlyStorage) = Some []"
  by (simp add: initializeStorage_def pinsOnlyStorage_def seededFirst_def)

text \<open>
  Claim C2, on the stores of the extension. When the key \<^verbatim>\<open>moduleStates\<close> is absent,
  \<^verbatim>\<open>initializeStorage\<close> writes all three keys: \<^verbatim>\<open>moduleStates\<close> becomes the map whose
  keys are the registered ids, each mapped to false, and the other two keys, absent as
  well, are set to the empty map and the empty list. When \<^verbatim>\<open>moduleStates\<close> has a
  value, the store is left as it is. So nothing is written unless the enabled-state key
  is absent, and no key that has a value is overwritten. Running \<^verbatim>\<open>initializeStorage\<close>
  a second time changes nothing.
\<close>

theorem initializeStorage_seeds_unset:
  assumes seeded: "seededFirst st"
  shows
  "(moduleStates st = None \<longrightarrow>
      (\<exists>defaults.
         initializeStorage st =
           st\<lparr>moduleStates := Some defaults, cardPreferences := Some Map.empty,
             favouriteQualities := Some []\<rparr>
         \<and> dom defaults = set (map info_id MODULE_REGISTRY)
         \<and> (\<forall>i \<in> set (map info_id MODULE_REGISTRY). defaults i = Some False)))
   \<and> (moduleStates st \<noteq> None \<longrightarrow> initializeStorage st = st)
   \<and> (\<forall>v. moduleStates st = Some v \<longrightarrow> moduleStates (initializeStorage st) = Some v)
   \<and> (\<forall>v. cardPreferences st = Some v \<longrightarrow> cardPreferences (initializeStorage st) = Some v)
   \<and> (\<forall>v. favouriteQualities st = Some v \<longrightarrow> favouriteQualities (initializeStorage st) = Some v)
   \<and> initializeStorage (initializeStorage st) = initializeStorage st"
proof -
  let ?d = "seedDefaults MODULE_REGISTRY Map.empty"
  have d1: "dom ?d = set (map info_id MODULE_REGISTRY)"
    by (auto simp: dom_def seedDefaults_apply)
  have d2: "\<forall>i \<in> set (map info_id MODULE_REGISTRY). ?d i = Some False"
    by (simp add: seedDefaults_apply)
  have a: "moduleStates st = None \<longrightarrow>
      (\<exists>defaults.
         initializeStorage st =
           st\<lparr>moduleStates := Some defaults, cardPreferences := Some Map.empty,
             favouriteQualities := Some []\<rparr>
         \<and> dom defaults = set (map info_id MODULE_REGISTRY)
         \<and> (\<forall>i \<in> set (map info_id MODULE_REGISTRY). defaults i = Some False))"
  proof
    assume n: "moduleStates st = None"
    have "initializeStorage st =
           st\<lparr>moduleStates := Some ?d, cardPreferences := Some Map.empty,
             favouriteQualities := Some []\<rparr>"
      using n by (simp add: initializeStorage_def)
    then show "\<exists>defaults.
         initializeStorage st =
           st\<lparr>moduleStates := Some defaults, cardPreferences := Some Map.empty,
             favouriteQualities := Some []\<rparr>
         \<and> dom defaults = set (map info_id MODULE_REGISTRY)
         \<and> (\<forall>i \<in> set (map info_id MODULE_REGISTRY). defaults i = Some False)"
      using d1 d2 by blast
  qed
  have b: "moduleStates st \<noteq> None \<longrightarrow> initializeStorage st = st"
    by (auto simp: initializeStorage_def)
  have c: "\<forall>v. moduleStates st = Some v \<longrightarrow> moduleStates (initializeStorage st) = Some v"
    by (simp add: initializeStorage_def)
  have k1: "\<forall>v. cardPreferences st = Some v \<longrightarrow> cardPreferences (initializeStorage st) = Some v"
    using seeded by (cases "moduleStates st") (simp_all add: initializeStorage_def seededFirst_def)
  have k2: "\<forall>v. favouriteQualities st = Some v \<longrightarrow> favouriteQualities (initializeStorage st) = Some v"
    using seeded by (cases "moduleStates st") (simp_all add: initializeStorage_def seededFirst_def)
  have e: "initializeStorage (initializeStorage st) = initializeStorage st"
    by (cases "moduleStates st") (simp_all add: initializeStorage_def)
  show ?thesis using a b c k1 k2 e by blast
qed

theorem initializeStorage_seeds_unset_witness:
  "seededFirst emptyStorage
   \<and> moduleStates emptyStorage = None
   \<and> moduleStates (initializeStorage emptyStorage) \<noteq> None
   \<and> cardPreferences (initializeStorage emptyStorage) = Some Map.empty
   \<and> favouriteQualities (initializeStorage emptyStorage) = Some []
   \<and> initializeStorage (initializeStorage emptyStorage) = initializeStorage emptyStorage
   \<and> seededFirst legacyStorage
   \<and> moduleStates legacyStorage \<noteq> None
   \<and> favouriteQualities legacyStorage = Some [''777'']
   \<and> initializeStorage legacyStorage = legacyStorage
   \<and> favouriteQualities (initializeStorage legacyStorage) = Some [''777'']"
proof -
  have s1: "seededFirst emptyStorage" by (simp add: seededFirst_def emptyStorage_def)
  have s2: "seededFirst legacyStorage" by (simp add: seededFirst_def legacyStorage_def)
  have n: "moduleStates emptyStorage = None" by (simp add: emptyStorage_def)
  have l: "moduleStates legacyStorage \<noteq> None" by (simp add: legacyStorage_def)
  have q: "favouriteQualities legacyStorage = Some [''777'']" by (simp add: legacyStorage_def)
  from initializeStorage_seeds_unset [OF s1] n
  obtain defaults where "initializeStorage emptyStorage =
      emptyStorage\<lparr>moduleStates := Some defaults, cardPreferences := Some Map.empty,
        favouriteQualities := Some []\<rparr>"
    by blast
  then have e: "moduleStates (initializeStorage emptyStorage) \<noteq> None"
    "cardPreferences (initializeStorage emptyStorage) = Some Map.empty"
    "favouriteQualities (initializeStorage emptyStorage) = Some []"
    by simp_all
  from initializeStorage_seeds_unset [OF s2] l
  have k: "initializeStorage legacyStorage = legacyStorage" by blast
  from initializeStorage_seeds_unset [OF s2] q
  have k': "favouriteQualities (initializeStorage legacyStorage) = Some [''777'']" by blast
  from initializeStorage_seeds_unset [OF s1]
  have i: "initializeStorage (initializeStorage emptyStorage) = initializeStorage emptyStorage"
    by blast
  show ?thesis using s1 s2 n l q e k k' i by blast
qed

section \<open>Facts about the pinned list\<close>

lemma indexOf_absent: "(indexOf xs x = - 1) = (x \<notin> set xs)"
proof (induction xs)
  case Nil
  show ?case by simp
next
  case (Cons y ys)
  have "0 \<le> indexOf ys x \<or> indexOf ys x = - 1"
    by (induction ys) (auto simp: Let_def)
  then show ?case using Cons by (auto simp: Let_def)
qed

lemma indexOf_range: "x \<in> set xs \<Longrightarrow> 0 \<le> indexOf xs x \<and> indexOf xs x < int (length xs)"
  by (induction xs) (auto simp: Let_def indexOf_absent)

lemma indexOf_nth: "x \<in> set xs \<Longrightarrow> xs ! nat (indexOf xs x) = x"
proof (induction xs)
  case Nil
  then show ?case by simp
next
  case (Cons y ys)
  show ?case
  proof (cases "y = x")
    case True
    then show ?thesis by simp
  next
    case False
    then have in_ys: "x \<in> set ys" using Cons.prems by simp
    then have "0 \<le> indexOf ys x" and "indexOf ys x \<noteq> - 1"
      using indexOf_range [OF in_ys] by auto
    then show ?thesis using False Cons.IH [OF in_ys]
      by (simp add: Let_def nat_add_distrib)
  qed
qed

lemma mset_splice_insert: "mset (splice_insert k x xs) = add_mset x (mset xs)"
proof -
  have "\<And>j. mset (take j xs @ [x] @ drop j xs) = add_mset x (mset xs)"
  proof -
    fix j
    have "mset (take j xs) + mset (drop j xs) = mset xs"
      by (metis append_take_drop_id mset_append)
    then show "mset (take j xs @ [x] @ drop j xs) = add_mset x (mset xs)"
      by simp
  qed
  then show ?thesis by (simp only: splice_insert_def Let_def)
qed

lemma mset_filter_once:
  "count_list xs x = 1 \<Longrightarrow> add_mset x (mset (filter (\<lambda>i. i \<noteq> x) xs)) = mset xs"
proof (induction xs)
  case Nil
  then show ?case by simp
next
  case (Cons y ys)
  show ?case
  proof (cases "y = x")
    case True
    then have "count_list ys x = 0" using Cons.prems by simp
    then have "x \<notin> set ys" by (simp add: count_list_0_iff)
    then have "filter (\<lambda>i. i \<noteq> x) ys = ys" by (auto simp: filter_id_conv)
    then show ?thesis using True by simp
  next
    case False
    then show ?thesis using Cons by simp
  qed
qed

lemma reorderFavourite_ids:
  assumes "targetId \<in> set (favouriteIds s)" "targetId \<noteq> movedId"
  shows "favouriteIds (reorderFavourite movedId targetId b s) =
           splice_insert (if b then indexOf (filter (\<lambda>i. i \<noteq> movedId) (favouriteIds s)) targetId
                          else indexOf (filter (\<lambda>i. i \<noteq> movedId) (favouriteIds s)) targetId + 1)
             movedId (filter (\<lambda>i. i \<noteq> movedId) (favouriteIds s))"
    and "favouriteQualities (storage (reorderFavourite movedId targetId b s)) =
           Some (favouriteIds (reorderFavourite movedId targetId b s))"
proof -
  have "targetId \<in> set (filter (\<lambda>i. i \<noteq> movedId) (favouriteIds s))"
    using assms by simp
  then have ne: "indexOf (filter (\<lambda>i. i \<noteq> movedId) (favouriteIds s)) targetId \<noteq> - 1"
    by (simp add: indexOf_absent)
  show "favouriteIds (reorderFavourite movedId targetId b s) =
           splice_insert (if b then indexOf (filter (\<lambda>i. i \<noteq> movedId) (favouriteIds s)) targetId
                          else indexOf (filter (\<lambda>i. i \<noteq> movedId) (favouriteIds s)) targetId + 1)
             movedId (filter (\<lambda>i. i \<noteq> movedId) (favouriteIds s))"
    using ne by (simp add: reorderFavourite_def Let_def)
  show "favouriteQualities (storage (reorderFavourite movedId targetId b s)) =
           Some (favouriteIds (reorderFavourite movedId targetId b s))"
    using ne by (simp add: reorderFavourite_def Let_def setStorage_favouriteQualities_def)
qed

lemma reorderFavourite_noop:
  "movedId = targetId \<or> targetId \<notin> set (favouriteIds s) \<Longrightarrow>
   reorderFavourite movedId targetId b s = s"
proof -
  assume "movedId = targetId \<or> targetId \<notin> set (favouriteIds s)"
  then have "targetId \<notin> set (filter (\<lambda>i. i \<noteq> movedId) (favouriteIds s))" by auto
  then have "indexOf (filter (\<lambda>i. i \<noteq> movedId) (favouriteIds s)) targetId = - 1"
    by (simp add: indexOf_absent)
  then show ?thesis by (simp add: reorderFavourite_def Let_def)
qed

lemma abc_example:
  "favouriteIds (reorderFavourite ''c'' ''a'' True pinnedABC) = [''c'', ''a'', ''b'']"
  by (simp add: reorderFavourite_def pinnedABC_def Let_def splice_insert_def)

lemma distinct_count_once: "distinct xs \<Longrightarrow> x \<in> set xs \<Longrightarrow> count_list xs x = 1"
  by (induction xs) (auto simp: count_list_0_iff)

lemma toggleFavourite_distinct:
  "distinct (favouriteIds s) \<Longrightarrow> distinct (favouriteIds (toggleFavourite q s))"
  by (simp add: toggleFavourite_def isFavourite_def Let_def)

lemma distinct_splice_insert:
  "distinct (splice_insert k x xs) = (x \<notin> set xs \<and> distinct xs)"
proof -
  have "mset (splice_insert k x xs) = mset (x # xs)"
    by (simp add: mset_splice_insert)
  then have "distinct (splice_insert k x xs) = distinct (x # xs)"
    by (rule mset_eq_imp_distinct_iff)
  then show ?thesis by simp
qed

lemma reorderFavourite_distinct:
  assumes "distinct (favouriteIds s)"
  shows "distinct (favouriteIds (reorderFavourite movedId targetId b s))"
  using assms by (simp add: reorderFavourite_def Let_def distinct_splice_insert)

text \<open>
  The pinned list of the unit holds no id twice: \<^verbatim>\<open>toggleFavourite\<close> appends an id only
  when it is absent, and both \<^verbatim>\<open>toggleFavourite\<close> and \<^verbatim>\<open>reorderFavourite\<close> keep a
  duplicate-free list duplicate-free (the two lemmas above). The filter of
  \<^verbatim>\<open>reorderFavourite\<close> relies on it: it removes every occurrence of the dragged id and
  puts one back, so a list with the dragged id twice, which the unit never builds, would
  come out shorter.
\<close>

lemma reorderFavourite_duplicate_ids:
  "\<not> distinct (favouriteIds pinnedAAB)
   \<and> favouriteIds (reorderFavourite ''a'' ''b'' True pinnedAAB) = [''a'', ''b'']"
  by (simp add: reorderFavourite_def pinnedAAB_def Let_def splice_insert_def)

text \<open>
  Claim C3. For every pinned list (one that holds no id twice), every dragged id in the
  list and every drop target in the list that is not the dragged id, the reordered list
  is a permutation of the list before: the same multiset of ids, hence the same element
  set and the same length, and again no id twice; this list is what is written to the
  store. From the list a, b, c, dragging c and dropping it above a gives c, a, b.
\<close>

theorem reorderFavourite_permutation:
  assumes pinned: "distinct (favouriteIds s)"
    and moved: "movedId \<in> set (favouriteIds s)"
    and tgt: "targetId \<in> set (favouriteIds s)"
    and ne: "targetId \<noteq> movedId"
  shows "mset (favouriteIds (reorderFavourite movedId targetId insertBefore s)) = mset (favouriteIds s)
     \<and> set (favouriteIds (reorderFavourite movedId targetId insertBefore s)) = set (favouriteIds s)
     \<and> length (favouriteIds (reorderFavourite movedId targetId insertBefore s)) = length (favouriteIds s)
     \<and> distinct (favouriteIds (reorderFavourite movedId targetId insertBefore s))
     \<and> favouriteQualities (storage (reorderFavourite movedId targetId insertBefore s)) =
         Some (favouriteIds (reorderFavourite movedId targetId insertBefore s))
     \<and> favouriteIds (reorderFavourite ''c'' ''a'' True pinnedABC) = [''c'', ''a'', ''b'']"
proof -
  let ?r = "reorderFavourite movedId targetId insertBefore s"
  have once: "count_list (favouriteIds s) movedId = 1"
    using pinned moved by (rule distinct_count_once)
  have m: "mset (favouriteIds ?r) = mset (favouriteIds s)"
    using reorderFavourite_ids(1) [OF tgt ne] mset_filter_once [OF once]
    by (simp only: mset_splice_insert)
  have st: "set (favouriteIds ?r) = set (favouriteIds s)"
    using m by (rule mset_eq_setD)
  have l: "length (favouriteIds ?r) = length (favouriteIds s)"
    using m by (rule mset_eq_length)
  have d: "distinct (favouriteIds ?r)"
    using pinned by (rule reorderFavourite_distinct)
  show ?thesis
    using m st l d reorderFavourite_ids(2) [OF tgt ne] abc_example by blast
qed

theorem reorderFavourite_permutation_witness:
  "distinct (favouriteIds pinnedABC)
   \<and> ''c'' \<in> set (favouriteIds pinnedABC)
   \<and> ''a'' \<in> set (favouriteIds pinnedABC)
   \<and> ''a'' \<noteq> ''c''
   \<and> favouriteIds (reorderFavourite ''c'' ''a'' True pinnedABC) = [''c'', ''a'', ''b'']
   \<and> mset (favouriteIds (reorderFavourite ''c'' ''a'' True pinnedABC)) = mset [''a'', ''b'', ''c'']
   \<and> length (favouriteIds (reorderFavourite ''c'' ''a'' True pinnedABC)) = 3"
proof -
  have h0: "distinct (favouriteIds pinnedABC)" by (simp add: pinnedABC_def)
  have h1: "''c'' \<in> set (favouriteIds pinnedABC)" by (simp add: pinnedABC_def)
  have h2: "''a'' \<in> set (favouriteIds pinnedABC)" by (simp add: pinnedABC_def)
  have h3: "''a'' \<noteq> ''c''" by simp
  have ids: "favouriteIds pinnedABC = [''a'', ''b'', ''c'']" by (simp add: pinnedABC_def)
  from reorderFavourite_permutation [OF h0 h1 h2 h3, of True] h0 h1 h2 h3 ids
  show ?thesis by simp
qed

text \<open>
  Claim C6. A drop on the clone of the dragged quality itself returns before anything is
  done, and a drop on a target that is not in the pinned sequence finds no index for it
  and returns before the write: in both cases the store and the pinned sequence are what
  they were. The same holds for \<^verbatim>\<open>reorderFavourite\<close> called directly. The sequence the
  unit consults is its variable \<^verbatim>\<open>favouriteIds\<close>; when that variable agrees with the
  stored list, a target missing from the stored list leaves the stored list unchanged.
\<close>

theorem drop_noop:
  "(draggedId s = Some qualityId \<or> qualityId \<notin> set (favouriteIds s) \<longrightarrow>
      storage (dropOn qualityId insertBefore s) = storage s
      \<and> favouriteIds (dropOn qualityId insertBefore s) = favouriteIds s)
   \<and> (movedId = targetId \<or> targetId \<notin> set (favouriteIds s) \<longrightarrow>
      reorderFavourite movedId targetId insertBefore s = s)
   \<and> (getStorage_favouriteQualities (storage s) = favouriteIds s
      \<and> qualityId \<notin> set (getStorage_favouriteQualities (storage s)) \<longrightarrow>
      getStorage_favouriteQualities (storage (dropOn qualityId insertBefore s)) =
        getStorage_favouriteQualities (storage s))"
proof -
  have a: "draggedId s = Some qualityId \<Longrightarrow> dropOn qualityId insertBefore s = s"
    by (simp add: dropOn_def)
  have b: "qualityId \<notin> set (favouriteIds s) \<Longrightarrow>
      storage (dropOn qualityId insertBefore s) = storage s
      \<and> favouriteIds (dropOn qualityId insertBefore s) = favouriteIds s"
    by (simp add: dropOn_def reorderFavourite_noop split: option.splits)
  show ?thesis using a b reorderFavourite_noop [of movedId targetId s insertBefore]
    by auto
qed

theorem drop_noop_witness:
  "draggedId (dragstart ''b'' pinnedABC) = Some ''b''
   \<and> storage (dropOn ''b'' True (dragstart ''b'' pinnedABC)) = storage pinnedABC
   \<and> ''z'' \<notin> set (favouriteIds (dragstart ''b'' pinnedABC))
   \<and> storage (dropOn ''z'' False (dragstart ''b'' pinnedABC)) = storage pinnedABC
   \<and> favouriteIds (dropOn ''z'' False (dragstart ''b'' pinnedABC)) = [''a'', ''b'', ''c'']
   \<and> reorderFavourite ''b'' ''z'' True pinnedABC = pinnedABC"
proof -
  have d: "draggedId (dragstart ''b'' pinnedABC) = Some ''b''"
    by (simp add: dragstart_def)
  have z: "''z'' \<notin> set (favouriteIds (dragstart ''b'' pinnedABC))"
    "''z'' \<notin> set (favouriteIds pinnedABC)"
    by (simp_all add: dragstart_def pinnedABC_def)
  have e: "storage (dragstart ''b'' pinnedABC) = storage pinnedABC"
    "favouriteIds (dragstart ''b'' pinnedABC) = [''a'', ''b'', ''c'']"
    by (simp_all add: dragstart_def pinnedABC_def)
  from drop_noop [of "dragstart ''b'' pinnedABC" "''b''" True]
    drop_noop [of "dragstart ''b'' pinnedABC" "''z''" False]
    drop_noop [of pinnedABC "''z''" True "''b''" "''z''"] d z e
  show ?thesis by simp
qed


section \<open>Facts about card preferences\<close>

lemma toggleCardPref_store:
  assumes "eventId container = Some cardId" "cardId \<noteq> []"
  shows "cardPrefs (toggleCardPref container pref s) =
           (if cardPrefs s cardId = Some pref then (cardPrefs s)(cardId := None)
            else (cardPrefs s)(cardId \<mapsto> pref))"
    and "getStorage_cardPreferences (sync (toggleCardPref container pref s)) =
           cardPrefs (toggleCardPref container pref s)"
  using assms
  by (simp_all add: toggleCardPref_def setCardPref_def getCardId_def Let_def
      setStorage_cardPreferences_def getStorage_cardPreferences_def)

lemma toggleCardPref_no_id:
  "eventId container = None \<or> eventId container = Some [] \<Longrightarrow>
   toggleCardPref container pref s = s"
  by (auto simp: toggleCardPref_def getCardId_def)

lemma loadCardPrefs_synced:
  "getStorage_cardPreferences (sync (loadCardPrefs st)) = cardPrefs (loadCardPrefs st)"
  by (simp add: loadCardPrefs_def)

text \<open>
  Claim C5 as the specification words it says that toggling a tag twice brings every
  card back to its original state. A card that carries the other tag does not come
  back: the first click switches it to the clicked tag and the second click clears it.
\<close>

theorem toggleCardPref_other_tag_counterexample:
  "getStorage_cardPreferences (sync x1Avoided) ''x1'' = Some Avoid
   \<and> getStorage_cardPreferences
        (sync (toggleCardPref cardX1 Favourite (toggleCardPref cardX1 Favourite x1Avoided))) ''x1'' = None"
  by (simp add: x1Avoided_def cardX1_def loadCardPrefs_def toggleCardPref_def setCardPref_def
      getCardId_def Let_def setStorage_cardPreferences_def getStorage_cardPreferences_def)

text \<open>
  Claim C5, as the code has it, for a card with a non-empty event id and with
  \<^verbatim>\<open>cardPrefs\<close> equal to the stored map (as it is after \<^verbatim>\<open>loadCardPrefs\<close> and after
  every toggle). Clicking the tag the card carries clears the stored preference;
  clicking a tag the card does not carry stores that tag, whether the card carried the
  other tag or none; the preferences of other cards are not touched. Toggling one tag
  twice gives back the stored map when the card carried no tag or that tag, and leaves
  the card with no preference when it carried the other tag.
\<close>

theorem toggleCardPref_tristate:
  assumes cid: "eventId container = Some cardId" "cardId \<noteq> []"
    and synced: "getStorage_cardPreferences (sync s) = cardPrefs s"
  shows
    "(cardPrefs s cardId = Some pref \<longrightarrow>
        getStorage_cardPreferences (sync (toggleCardPref container pref s)) cardId = None)
     \<and> (cardPrefs s cardId \<noteq> Some pref \<longrightarrow>
        getStorage_cardPreferences (sync (toggleCardPref container pref s)) cardId = Some pref)
     \<and> (\<forall>other. other \<noteq> cardId \<longrightarrow>
        getStorage_cardPreferences (sync (toggleCardPref container pref s)) other =
          getStorage_cardPreferences (sync s) other)
     \<and> (cardPrefs s cardId = None \<or> cardPrefs s cardId = Some pref \<longrightarrow>
        getStorage_cardPreferences
          (sync (toggleCardPref container pref (toggleCardPref container pref s))) =
        getStorage_cardPreferences (sync s))
     \<and> (cardPrefs s cardId \<noteq> None \<and> cardPrefs s cardId \<noteq> Some pref \<longrightarrow>
        getStorage_cardPreferences
          (sync (toggleCardPref container pref (toggleCardPref container pref s))) cardId = None)
     \<and> getStorage_cardPreferences (sync (toggleCardPref container pref s)) =
          cardPrefs (toggleCardPref container pref s)"
proof -
  let ?t = "toggleCardPref container pref"
  have once: "getStorage_cardPreferences (sync (?t s)) =
      (if cardPrefs s cardId = Some pref then (cardPrefs s)(cardId := None)
       else (cardPrefs s)(cardId \<mapsto> pref))"
    using toggleCardPref_store [OF cid, of pref s] by simp
  have twice: "getStorage_cardPreferences (sync (?t (?t s))) =
      (if cardPrefs (?t s) cardId = Some pref then (cardPrefs (?t s))(cardId := None)
       else (cardPrefs (?t s))(cardId \<mapsto> pref))"
    using toggleCardPref_store [OF cid, of pref "?t s"] by simp
  have mem: "cardPrefs (?t s) =
      (if cardPrefs s cardId = Some pref then (cardPrefs s)(cardId := None)
       else (cardPrefs s)(cardId \<mapsto> pref))"
    using toggleCardPref_store(1) [OF cid, of pref s] .
  have c1: "cardPrefs s cardId = Some pref \<longrightarrow>
        getStorage_cardPreferences (sync (?t s)) cardId = None"
    by (simp add: once)
  have c2: "cardPrefs s cardId \<noteq> Some pref \<longrightarrow>
        getStorage_cardPreferences (sync (?t s)) cardId = Some pref"
    by (simp add: once)
  have c3: "\<forall>other. other \<noteq> cardId \<longrightarrow>
        getStorage_cardPreferences (sync (?t s)) other = getStorage_cardPreferences (sync s) other"
    by (simp add: once synced)
  have c4: "cardPrefs s cardId = None \<or> cardPrefs s cardId = Some pref \<longrightarrow>
        getStorage_cardPreferences (sync (?t (?t s))) = getStorage_cardPreferences (sync s)"
    by (auto simp: twice mem synced fun_eq_iff)
  have c5: "cardPrefs s cardId \<noteq> None \<and> cardPrefs s cardId \<noteq> Some pref \<longrightarrow>
        getStorage_cardPreferences (sync (?t (?t s))) cardId = None"
    by (simp add: twice mem)
  have c6: "getStorage_cardPreferences (sync (?t s)) = cardPrefs (?t s)"
    using toggleCardPref_store(2) [OF cid, of pref s] .
  show ?thesis using c1 c2 c3 c4 c5 c6 by blast
qed

theorem toggleCardPref_tristate_witness:
  "eventId cardX1 = Some ''x1'' \<and> ''x1'' \<noteq> []
   \<and> getStorage_cardPreferences (sync x1Favourite) = cardPrefs x1Favourite
   \<and> cardPrefs x1Favourite ''x1'' = Some Favourite
   \<and> getStorage_cardPreferences (sync (toggleCardPref cardX1 Favourite x1Favourite)) ''x1'' = None
   \<and> getStorage_cardPreferences (sync (toggleCardPref cardX1 Avoid x1Favourite)) ''x1'' = Some Avoid
   \<and> getStorage_cardPreferences
        (sync (toggleCardPref cardX1 Favourite (toggleCardPref cardX1 Favourite x1Favourite))) ''x1'' =
      Some Favourite"
proof -
  have cid: "eventId cardX1 = Some ''x1''" "''x1'' \<noteq> []"
    by (simp_all add: cardX1_def)
  have synced: "getStorage_cardPreferences (sync x1Favourite) = cardPrefs x1Favourite"
    by (simp add: x1Favourite_def loadCardPrefs_def)
  have cur: "cardPrefs x1Favourite ''x1'' = Some Favourite"
    "getStorage_cardPreferences (sync x1Favourite) ''x1'' = Some Favourite"
    by (simp_all add: x1Favourite_def loadCardPrefs_def getStorage_cardPreferences_def)
  have ne: "cardPrefs x1Favourite ''x1'' \<noteq> Some Avoid" using cur by simp
  note t = toggleCardPref_tristate [OF cid synced, of Favourite]
  have a: "getStorage_cardPreferences (sync (toggleCardPref cardX1 Favourite x1Favourite)) ''x1'' = None"
    using t cur(1) by blast
  have "getStorage_cardPreferences
        (sync (toggleCardPref cardX1 Favourite (toggleCardPref cardX1 Favourite x1Favourite))) =
      getStorage_cardPreferences (sync x1Favourite)"
    using t cur(1) by blast
  then have b: "getStorage_cardPreferences
        (sync (toggleCardPref cardX1 Favourite (toggleCardPref cardX1 Favourite x1Favourite))) ''x1'' =
      Some Favourite"
    using cur(2) by (simp only:)
  from toggleCardPref_tristate [OF cid synced, of Avoid] ne
  have c: "getStorage_cardPreferences (sync (toggleCardPref cardX1 Avoid x1Favourite)) ''x1'' = Some Avoid"
    by blast
  show ?thesis using cid synced cur a b c by blast
qed

section \<open>Facts about doubles\<close>

lemma floorLog2_bounds: "0 < n \<Longrightarrow> 2 ^ floorLog2 n \<le> n \<and> n < 2 ^ Suc (floorLog2 n)"
proof (induction n rule: floorLog2.induct)
  case (1 n)
  show ?case
  proof (cases "n < 2")
    case True
    then have "n = 1" using "1.prems" by simp
    then show ?thesis by (simp add: floorLog2.simps)
  next
    case False
    then have h: "0 < n div 2" by simp
    define x :: nat where "x = 2 ^ floorLog2 (n div 2)"
    have ih: "x \<le> n div 2 \<and> n div 2 < 2 * x"
      using "1.IH" [OF False h] by (simp add: x_def)
    have f: "floorLog2 n = Suc (floorLog2 (n div 2))"
      using False by (simp add: floorLog2.simps)
    have lo: "2 * (n div 2) \<le> n" by simp
    have hi: "n < 2 * (n div 2) + 2" by presburger
    have "2 * x \<le> n \<and> n < 2 * (2 * x)" using ih lo hi by linarith
    then show ?thesis by (simp add: f x_def)
  qed
qed

lemma exponentOf_of_nat: "0 < n \<Longrightarrow> exponentOf (of_nat n) = int (floorLog2 n)"
  by (simp add: exponentOf_def)

lemma roundHalfEven_of_int: "roundHalfEven (of_int k) = k"
  by (simp add: roundHalfEven_def)

lemma rounded_magnitude_of_nat:
  assumes pos: "0 < n" and small: "n < 2 ^ 53"
  shows "of_int (roundHalfEven (of_nat n / pow2 (max (exponentOf (of_nat n)) (- 1022) - 52)))
           * pow2 (max (exponentOf (of_nat n)) (- 1022) - 52) = (of_nat n :: real)"
proof -
  let ?e = "floorLog2 n"
  have b: "2 ^ ?e \<le> n" using floorLog2_bounds [OF pos] by simp
  have lt: "(2::nat) ^ ?e < 2 ^ 53" using b small by (rule le_less_trans)
  have "(1::nat) < 2" by simp
  from power_less_imp_less_exp [OF this lt] have e: "?e < 53" .
  let ?k = "52 - ?e"
  have k: "nat (52 - int ?e) = ?k" using e by simp
  have p: "pow2 (int ?e - 52) = 1 / 2 ^ ?k"
  proof (cases "?e = 52")
    case True
    then show ?thesis by (simp add: pow2_def)
  next
    case False
    then have "\<not> 0 \<le> int ?e - 52" using e by simp
    then show ?thesis using k by (simp add: pow2_def)
  qed
  have m: "roundHalfEven (of_nat n / pow2 (int ?e - 52)) = int (n * 2 ^ ?k)"
  proof -
    have "of_nat n / pow2 (int ?e - 52) = (of_int (int (n * 2 ^ ?k)) :: real)"
      by (simp add: p)
    then show ?thesis by (simp only: roundHalfEven_of_int)
  qed
  have v: "of_int (roundHalfEven (of_nat n / pow2 (int ?e - 52))) * pow2 (int ?e - 52) =
      (of_nat n :: real)"
    unfolding m by (simp add: p)
  have ex: "max (exponentOf (of_nat n)) (- 1022) - 52 = int ?e - 52"
    using exponentOf_of_nat [OF pos] by simp
  show ?thesis unfolding ex by (rule v)
qed

lemma roundDouble_of_int:
  assumes small: "\<bar>k\<bar> < 2 ^ 53"
  shows "roundDouble (of_int k) = Finite (of_int k)"
proof (cases "k = 0")
  case True
  then show ?thesis by (simp add: roundDouble_def)
next
  case False
  define n where "n = nat \<bar>k\<bar>"
  have pos: "0 < n" using False by (simp add: n_def)
  have "int n < 2 ^ 53" using small by (simp add: n_def)
  then have sm: "n < 2 ^ 53" by (metis of_nat_less_iff of_nat_numeral of_nat_power)
  have ab: "\<bar>of_int k :: real\<bar> = of_nat n"
    by (simp add: n_def flip: of_int_abs)
  have nover: "\<not> (2::real) ^ 1024 \<le> of_nat n"
  proof -
    have "(of_nat n :: real) < 2 ^ 53" using sm
      by (metis of_nat_less_iff of_nat_numeral of_nat_power)
    also have "\<dots> < 2 ^ 1024" by simp
    finally show ?thesis by simp
  qed
  have k0: "(of_int k :: real) \<noteq> 0" using False by simp
  have sgn: "(if (of_int k :: real) < 0 then - of_nat n else of_nat n) = (of_int k :: real)"
    using ab by (simp add: abs_if split: if_splits)
  show ?thesis
    unfolding roundDouble_def Let_def ab rounded_magnitude_of_nat [OF pos sm]
    using k0 nover sgn by (simp only: if_False)
qed

lemma roundDouble_not_NaN [simp]: "roundDouble x \<noteq> NaN"
  by (simp add: roundDouble_def Let_def)

text \<open>Evaluation of the rounding at the numbers the examples below need.\<close>

lemmas exponent_eval = exponentOf_def floorLog2.simps Let_def
lemmas round_eval = roundDouble_def Let_def roundHalfEven_def pow2_def

lemma exponent_values:
  "exponentOf (1 / 10) = - 4"
  "exponentOf (1 / 5) = - 3"
  "exponentOf (3 / 10) = - 2"
  "exponentOf (3602879701896397 / 36028797018963968) = - 4"
  "exponentOf (3602879701896397 / 18014398509481984) = - 3"
  "exponentOf (5404319552844595 / 18014398509481984) = - 2"
  "exponentOf (10808639105689191 / 36028797018963968) = - 2"
  "exponentOf (10808639105689191 / 18014398509481984) = - 1"
  "exponentOf (1 / 2) = - 1"
  "exponentOf (5 / 2) = 1"
  "exponentOf (1 / 100) = - 7"
  "exponentOf (21617278211378381 / 36028797018963968) = - 1"
  by (simp_all add: exponent_eval)

lemma nearest_doubles:
  "roundDouble (1 / 10) = Finite tenth"
  "roundDouble (1 / 5) = Finite twoTenths"
  "roundDouble (3 / 10) = Finite threeTenths"
  by (simp_all add: round_eval exponent_values tenth_def twoTenths_def threeTenths_def)

lemma rounded_values:
  "roundDouble (3602879701896397 / 36028797018963968) = Finite (3602879701896397 / 36028797018963968)"
  "roundDouble (3602879701896397 / 18014398509481984) = Finite (3602879701896397 / 18014398509481984)"
  "roundDouble (5404319552844595 / 18014398509481984) = Finite (5404319552844595 / 18014398509481984)"
  "roundDouble (10808639105689191 / 36028797018963968) = Finite (1351079888211149 / 4503599627370496)"
  "roundDouble (10808639105689191 / 18014398509481984) = Finite (1351079888211149 / 2251799813685248)"
  "roundDouble (1 / 2) = Finite (1 / 2)"
  "roundDouble (5 / 2) = Finite (5 / 2)"
  "roundDouble (21617278211378381 / 36028797018963968) = Finite (5404319552844595 / 9007199254740992)"
  by (simp_all add: round_eval exponent_values)

section \<open>Facts about the parsers\<close>

lemma takeWhile_digit_empty: "(takeWhile isDigit s = []) = (\<not> startsWithDigit s)"
  by (cases s) (simp_all add: startsWithDigit_def)

lemma trimStart_trim: "trimStart (trim s) = trim s"
proof -
  let ?t = "dropWhile isWhiteSpace s"
  have hd_t: "?t = [] \<or> \<not> isWhiteSpace (hd ?t)"
    using hd_dropWhile [of isWhiteSpace s] by blast
  have keep: "\<And>t. t = [] \<or> \<not> isWhiteSpace (hd t) \<Longrightarrow>
      dropWhile isWhiteSpace (rev (dropWhile isWhiteSpace (rev t))) =
        rev (dropWhile isWhiteSpace (rev t))"
  proof -
    fix t :: string
    assume h: "t = [] \<or> \<not> isWhiteSpace (hd t)"
    show "dropWhile isWhiteSpace (rev (dropWhile isWhiteSpace (rev t))) =
        rev (dropWhile isWhiteSpace (rev t))"
    proof (cases t)
      case Nil
      then show ?thesis by simp
    next
      case (Cons c r)
      then have nc: "\<not> isWhiteSpace c" using h by simp
      have "rev (dropWhile isWhiteSpace (rev (c # r))) = c # rev (dropWhile isWhiteSpace (rev r))"
        using nc by (simp add: dropWhile_append)
      then show ?thesis using Cons nc by simp
    qed
  qed
  show ?thesis
    using keep [OF hd_t] by (simp add: trim_def trimStart_def trimEnd_def)
qed

lemma parseInt10_NaN: "(parseInt10 s = NaN) = (\<not> hasNumericPrefix (trimStart s))"
  by (auto simp add: parseInt10_def hasNumericPrefix_def takeWhile_digit_empty Let_def
      split: prod.splits)

lemma strUnsignedDecimal_None:
  "(strUnsignedDecimal r = None) =
     (\<not> startsWithDigit r \<and> \<not> (case r of [] \<Rightarrow> False | c # r' \<Rightarrow> c = CHR ''.'' \<and> startsWithDigit r'))"
proof (cases "startsWithDigit r")
  case True
  then have "takeWhile isDigit r \<noteq> []" by (simp add: takeWhile_digit_empty)
  then show ?thesis using True
    by (simp add: strUnsignedDecimal_def Let_def split: prod.splits)
next
  case False
  then have ip: "takeWhile isDigit r = []" by (simp add: takeWhile_digit_empty)
  then have r1: "dropWhile isDigit r = r"
    by (metis append_Nil takeWhile_dropWhile_id)
  show ?thesis
  proof (cases r)
    case Nil
    then show ?thesis by (simp add: strUnsignedDecimal_def startsWithDigit_def)
  next
    case (Cons c r')
    show ?thesis
      using False ip r1 Cons
      by (auto simp add: strUnsignedDecimal_def Let_def takeWhile_digit_empty split: prod.splits)
  qed
qed

lemma parseFloat_NaN:
  "(parseFloat s = NaN) = (\<not> parsesAsDecimal (trimStart s) \<and> \<not> namesInfinity (trimStart s))"
proof -
  let ?r = "snd (stripSign (trimStart s))"
  have "(parseFloat s = NaN) = (take 8 ?r \<noteq> ''Infinity'' \<and> strUnsignedDecimal ?r = None)"
    by (auto simp add: parseFloat_def Let_def split: prod.splits option.splits)
  then show ?thesis
    by (auto simp add: parsesAsDecimal_def namesInfinity_def Let_def strUnsignedDecimal_None)
qed

lemma parseFloat_Infinity:
  "namesInfinity (trimStart s) \<Longrightarrow> parseFloat s = PosInfinity \<or> parseFloat s = NegInfinity"
  by (auto simp add: parseFloat_def namesInfinity_def Let_def split: prod.splits)

text \<open>
  How far claim C8 holds. When the text, with its commas removed and trimmed, has no
  numeric prefix, \<^verbatim>\<open>parseQuantity\<close> returns 0. When the trimmed text does not parse as
  a decimal, \<^verbatim>\<open>parsePrice\<close> returns 0 unless the text names Infinity, and then it
  returns an infinity. Neither parser has a failing branch: each is a total function of
  the string, and neither ever returns NaN.
\<close>

lemma parsers_on_non_numeric:
  "\<not> hasNumericPrefix (trim (filter (\<lambda>c. c \<noteq> CHR '','') s)) \<Longrightarrow> parseQuantity s = Finite 0"
  "\<not> parsesAsDecimal (trim s) \<Longrightarrow> \<not> namesInfinity (trim s) \<Longrightarrow> parsePrice s = Finite 0"
  "\<not> parsesAsDecimal (trim s) \<Longrightarrow> namesInfinity (trim s) \<Longrightarrow>
     parsePrice s = PosInfinity \<or> parsePrice s = NegInfinity"
  "parseQuantity s \<noteq> NaN"
  "parsePrice s \<noteq> NaN"
proof -
  show "\<not> hasNumericPrefix (trim (filter (\<lambda>c. c \<noteq> CHR '','') s)) \<Longrightarrow> parseQuantity s = Finite 0"
    by (simp add: parseQuantity_def isNaN_def Let_def parseInt10_NaN trimStart_trim)
  show "\<not> parsesAsDecimal (trim s) \<Longrightarrow> \<not> namesInfinity (trim s) \<Longrightarrow> parsePrice s = Finite 0"
    by (simp add: parsePrice_def isNaN_def Let_def parseFloat_NaN trimStart_trim)
  show "\<not> parsesAsDecimal (trim s) \<Longrightarrow> namesInfinity (trim s) \<Longrightarrow>
     parsePrice s = PosInfinity \<or> parsePrice s = NegInfinity"
    using parseFloat_Infinity [of "trim s"]
    by (auto simp add: parsePrice_def isNaN_def Let_def trimStart_trim)
  show "parseQuantity s \<noteq> NaN"
    by (simp add: parseQuantity_def isNaN_def Let_def)
  show "parsePrice s \<noteq> NaN"
    by (simp add: parsePrice_def isNaN_def Let_def)
qed

lemma parsers_non_numeric_examples:
  "parseQuantity ''abc'' = Finite 0"
  "parseQuantity '' ,, '' = Finite 0"
  "parseQuantity ''Infinity'' = Finite 0"
  "parsePrice ''abc'' = Finite 0"
  "parsePrice ''-.e5'' = Finite 0"
  "parsePrice [] = Finite 0"
  by (simp_all add: parseQuantity_def parsePrice_def parseInt10_def parseFloat_def trim_def
      trimStart_def trimEnd_def isWhiteSpace_def stripSign_def isDigit_def isNaN_def
      strUnsignedDecimal_def)

text \<open>
  Claim C8 says that \<^verbatim>\<open>parsePrice\<close> returns 0 for every string that does not parse as
  a decimal. The text \<^verbatim>\<open>Infinity\<close> has no digit and does not parse as a decimal;
  \<^verbatim>\<open>parseFloat\<close> reads it as the number Infinity, which \<^verbatim>\<open>Number.isNaN\<close> lets through,
  and \<^verbatim>\<open>parsePrice\<close> returns Infinity, not 0. With a minus sign in front it returns
  minus Infinity. \<^verbatim>\<open>parseQuantity\<close> returns 0 for the same text.
\<close>

theorem parsePrice_Infinity:
  "\<not> parsesAsDecimal (trim ''Infinity'')
   \<and> parsePrice ''Infinity'' = PosInfinity
   \<and> parsePrice ''Infinity'' \<noteq> Finite 0
   \<and> \<not> parsesAsDecimal (trim ''-Infinity'')
   \<and> parsePrice ''-Infinity'' = NegInfinity
   \<and> parseQuantity ''Infinity'' = Finite 0"
  by (simp add: parsePrice_def parseQuantity_def parseFloat_def parseInt10_def trim_def
      trimStart_def trimEnd_def isWhiteSpace_def stripSign_def isNaN_def parsesAsDecimal_def
      startsWithDigit_def isDigit_def)

lemma parse_examples:
  "parseQuantity ''3,966'' = Finite 3966"
  "parseQuantity ''  100  '' = Finite 100"
  "parsePrice ''0.1'' = Finite tenth"
  "parsePrice ''  2.50  '' = Finite (5 / 2)"
  using roundDouble_of_int [of 3966] roundDouble_of_int [of 100] nearest_doubles(1) rounded_values
  by (simp_all add: parseQuantity_def parsePrice_def parseInt10_def parseFloat_def trim_def
      trimStart_def trimEnd_def isWhiteSpace_def stripSign_def isDigit_def digitsValue_def
      digitValue_def isNaN_def strUnsignedDecimal_def exponentPart_def power10_def)

section \<open>Facts about the total\<close>

lemma integerItem_line:
  assumes "integerItem item"
  obtains l where "fmul (quantity item) (price item) = roundDouble (of_int l)"
    and "exactLine item = of_int l"
proof -
  from assms obtain q p where q: "quantity item = Finite q" "of_int \<lfloor>q\<rfloor> = q"
    and p: "price item = Finite p" "of_int \<lfloor>p\<rfloor> = p"
    by (auto simp: integerItem_def isInteger_def split: number.splits)
  have "q * p = of_int (\<lfloor>q\<rfloor> * \<lfloor>p\<rfloor>)" by (metis of_int_mult q(2) p(2))
  then show ?thesis using that [of "\<lfloor>q\<rfloor> * \<lfloor>p\<rfloor>"] q(1) p(1)
    by (simp add: exactLine_def)
qed

lemma foldl_exact:
  assumes "\<forall>item \<in> set items. integerItem item"
    and "\<bar>of_int a\<bar> + (\<Sum>item \<leftarrow> items. \<bar>exactLine item\<bar>) < 2 ^ 53"
  shows "foldl (\<lambda>sum item. fadd sum (fmul (quantity item) (price item))) (Finite (of_int a)) items =
           Finite (of_int a + (\<Sum>item \<leftarrow> items. exactLine item))"
  using assms
proof (induction items arbitrary: a)
  case Nil
  then show ?case by simp
next
  case (Cons item items)
  from Cons.prems(1) have "integerItem item" by simp
  then obtain l where l: "fmul (quantity item) (price item) = roundDouble (of_int l)"
    "exactLine item = of_int l"
    by (rule integerItem_line)
  have nonneg: "0 \<le> (\<Sum>item \<leftarrow> items. \<bar>exactLine item\<bar>)"
    by (rule sum_list_nonneg) auto
  have bound: "\<bar>real_of_int a\<bar> + \<bar>real_of_int l\<bar> + (\<Sum>item \<leftarrow> items. \<bar>exactLine item\<bar>) < 2 ^ 53"
    using Cons.prems(2) l(2) by simp
  have "\<bar>real_of_int l\<bar> < 2 ^ 53" using bound nonneg by linarith
  then have ls: "\<bar>l\<bar> < 2 ^ 53" by (metis of_int_abs of_int_less_iff of_int_numeral of_int_power)
  have "\<bar>real_of_int (a + l)\<bar> < 2 ^ 53" using bound nonneg by (simp only: of_int_add, (linarith)?)
  then have als: "\<bar>a + l\<bar> < 2 ^ 53" by (metis of_int_abs of_int_less_iff of_int_numeral of_int_power)
  have step: "fadd (Finite (of_int a)) (fmul (quantity item) (price item)) = Finite (of_int (a + l))"
    using roundDouble_of_int [OF ls] roundDouble_of_int [OF als] by (simp add: l(1))
  have rest: "\<bar>real_of_int (a + l)\<bar> + (\<Sum>item \<leftarrow> items. \<bar>exactLine item\<bar>) < 2 ^ 53"
    using bound by (simp only: of_int_add, (linarith)?)
  have "\<forall>item \<in> set items. integerItem item" using Cons.prems(1) by simp
  from Cons.IH [OF this rest] show ?case
    by (simp add: step l(2))
qed

lemma computeTotal_exact:
  assumes "\<forall>item \<in> set items. integerItem item"
    and "(\<Sum>item \<leftarrow> items. \<bar>exactLine item\<bar>) < 2 ^ 53"
  shows "computeTotal items = Finite (\<Sum>item \<leftarrow> items. exactLine item)"
  using foldl_exact [of items 0] assms by (simp add: computeTotal_def)

lemma sum_list_permuted:
  fixes f :: "'a \<Rightarrow> real"
  assumes "mset xs = mset ys"
  shows "(\<Sum>x \<leftarrow> xs. f x) = (\<Sum>y \<leftarrow> ys. f y)"
proof -
  have "mset (map f xs) = mset (map f ys)" using assms by (metis mset_map)
  then show ?thesis by (metis sum_mset_sum_list)
qed

lemma zero_line:
  "fmul (Finite 0) (Finite p) = Finite 0"
  "fmul (Finite q) (Finite 0) = Finite 0"
  "fmul (Finite 0) PosInfinity = NaN"
  by (simp_all add: roundDouble_def infinityTimes_def)

lemma ascending_total:
  "computeTotal pricesAscending = Finite (1351079888211149 / 2251799813685248)"
  by (simp add: computeTotal_def pricesAscending_def tenth_def twoTenths_def threeTenths_def
      rounded_values)

lemma descending_total:
  "computeTotal pricesDescending = Finite (5404319552844595 / 9007199254740992)"
  by (simp add: computeTotal_def pricesDescending_def tenth_def twoTenths_def threeTenths_def
      rounded_values)

text \<open>
  Claim C9 as the specification words it says that every permutation of the items gives
  the same total. Addition of doubles rounds at every step and is not associative: one
  item each at the prices 0.1, 0.2 and 0.3 totals 0.6000000000000001 in this order and
  0.6 in the reverse order.
\<close>

theorem computeTotal_order_counterexample:
  "mset pricesDescending = mset pricesAscending
   \<and> computeTotal pricesAscending = Finite (1351079888211149 / 2251799813685248)
   \<and> computeTotal pricesDescending = Finite (5404319552844595 / 9007199254740992)
   \<and> computeTotal pricesDescending \<noteq> computeTotal pricesAscending"
  by (simp add: ascending_total descending_total)
    (simp add: pricesAscending_def pricesDescending_def)

text \<open>
  Claim C9, where the sum is exact. \<^verbatim>\<open>computeTotal\<close> of the empty sequence is 0. When
  every quantity and every price is an integer and the absolute line values add up to
  less than \<open>2 ^ 53\<close>, no step of the fold rounds: the total is the exact sum of the
  products \<open>quantity * price\<close> (a line with a zero factor adds 0), and every permutation
  of the items gives the same total.
\<close>

theorem computeTotal_order_independent:
  assumes ints: "list_all integerItem items"
    and bound: "(\<Sum>item \<leftarrow> items. \<bar>exactLine item\<bar>) < 2 ^ 53"
    and perm: "mset permuted = mset items"
  shows "computeTotal [] = Finite 0
     \<and> computeTotal items = Finite (\<Sum>item \<leftarrow> items. exactLine item)
     \<and> computeTotal permuted = computeTotal items"
proof -
  have e: "computeTotal [] = Finite 0" by (simp add: computeTotal_def)
  have all: "\<forall>item \<in> set items. integerItem item"
    using ints by (simp add: list_all_iff)
  have t: "computeTotal items = Finite (\<Sum>item \<leftarrow> items. exactLine item)"
    using all bound by (rule computeTotal_exact)
  have "set permuted = set items" using perm by (rule mset_eq_setD)
  then have ints': "\<forall>item \<in> set permuted. integerItem item" using all by simp
  have bound': "(\<Sum>item \<leftarrow> permuted. \<bar>exactLine item\<bar>) < 2 ^ 53"
    using bound sum_list_permuted [OF perm, of "\<lambda>item. \<bar>exactLine item\<bar>"] by simp
  have "computeTotal permuted = Finite (\<Sum>item \<leftarrow> permuted. exactLine item)"
    using ints' bound' by (rule computeTotal_exact)
  then have p: "computeTotal permuted = computeTotal items"
    using t sum_list_permuted [OF perm, of exactLine] by simp
  show ?thesis using e t p by blast
qed

theorem computeTotal_order_independent_witness:
  "list_all integerItem scripLines
   \<and> (\<Sum>item \<leftarrow> scripLines. \<bar>exactLine item\<bar>) < 2 ^ 53
   \<and> mset scripLinesSwapped = mset scripLines
   \<and> computeTotal scripLines = Finite 206
   \<and> computeTotal scripLinesSwapped = Finite 206"
proof -
  have ints: "list_all integerItem scripLines"
    by (simp add: scripLines_def integerItem_def isInteger_def)
  have bound: "(\<Sum>item \<leftarrow> scripLines. \<bar>exactLine item\<bar>) < 2 ^ 53"
    by (simp add: scripLines_def exactLine_def)
  have perm: "mset scripLinesSwapped = mset scripLines"
    by (simp add: scripLines_def scripLinesSwapped_def)
  have s: "(\<Sum>item \<leftarrow> scripLines. exactLine item) = 206"
    by (simp add: scripLines_def exactLine_def)
  from computeTotal_order_independent [OF ints bound perm] ints bound perm s
  show ?thesis by simp
qed

section \<open>Facts about the badge text\<close>

subsection \<open>The error of rounding to a double\<close>

lemma pow2_powi: "pow2 e = 2 powi e"
  by (simp add: pow2_def power_int_def inverse_eq_divide power_one_over)

lemma pow2_pos: "0 < pow2 e"
  by (simp add: pow2_powi)

lemma pow2_mono: "d \<le> e \<Longrightarrow> pow2 d \<le> pow2 e"
  by (simp add: pow2_powi power_int_increasing)

lemma pow2_nat: "pow2 (int k) = 2 ^ k"
  by (simp add: pow2_def)

lemma pow2_neg: "pow2 (- int k) = 1 / 2 ^ k"
  by (auto simp: pow2_def)

lemma exponentOf_bounds:
  assumes "0 < a"
  shows "pow2 (exponentOf a) \<le> a \<and> a < pow2 (exponentOf a + 1)"
proof (cases "1 \<le> a")
  case True
  let ?n = "nat \<lfloor>a\<rfloor>"
  let ?k = "floorLog2 ?n"
  have fl: "1 \<le> \<lfloor>a\<rfloor>" using True by simp
  then have pos: "0 < ?n" by simp
  have b: "2 ^ ?k \<le> ?n" "?n < 2 ^ Suc ?k"
    using floorLog2_bounds [OF pos] by simp_all
  have e: "exponentOf a = int ?k" using True by (simp add: exponentOf_def)
  have n_le: "real ?n \<le> a" using fl by simp
  have "real (2 ^ ?k) \<le> real ?n" using b(1) by (simp only: of_nat_le_iff)
  moreover have "real (2 ^ ?k) = 2 ^ ?k" by simp
  ultimately have lo: "2 ^ ?k \<le> a" using n_le by linarith
  have "a < real ?n + 1" using fl by simp
  moreover have "real ?n + 1 \<le> real (2 ^ Suc ?k)"
  proof -
    have "?n + 1 \<le> 2 ^ Suc ?k" using b(2) by simp
    then have "real (?n + 1) \<le> real (2 ^ Suc ?k)" by (simp only: of_nat_le_iff)
    then show ?thesis by simp
  qed
  moreover have "real (2 ^ Suc ?k) = 2 ^ Suc ?k" by simp
  ultimately have hi: "a < 2 ^ Suc ?k" by linarith
  have "pow2 (int ?k + 1) = 2 ^ Suc ?k"
    using pow2_nat [of "Suc ?k"] by (simp add: add.commute)
  then show ?thesis using lo hi by (simp add: e pow2_nat)
next
  case False
  then have a1: "a < 1" by simp
  define c where "c = nat \<lceil>1 / a\<rceil>"
  define j where "j = floorLog2 (c - 1)"
  define t :: nat where "t = 2 ^ j"
  have inv: "1 < 1 / a" using assms a1 by simp
  then have "1 < \<lceil>1 / a\<rceil>" by (simp add: less_ceiling_iff)
  then have "2 \<le> \<lceil>1 / a\<rceil>" by linarith
  then have c2: "2 \<le> c" unfolding c_def by linarith
  have "\<not> c \<le> 1" using c2 by simp
  then have e: "exponentOf a = - int (Suc j)"
    using False unfolding exponentOf_def Let_def c_def [symmetric] j_def [symmetric] by simp
  have pos: "0 < c - 1" using c2 by linarith
  have b: "t \<le> c - 1" "c - 1 < 2 * t"
    using floorLog2_bounds [OF pos] by (simp_all add: j_def t_def)
  have c_real: "real c = of_int \<lceil>1 / a\<rceil>"
    using c2 unfolding c_def by linarith
  have up: "1 / a \<le> real c" unfolding c_real by (rule le_of_int_ceiling)
  have down: "real c - 1 < 1 / a"
    unfolding c_real using ceiling_correct [of "1 / a"] by linarith
  have "c \<le> 2 * t" using b(2) by linarith
  then have "real c \<le> real (2 * t)" by (simp only: of_nat_le_iff)
  then have "1 / a \<le> 2 * real t" using up by simp
  then have lo: "1 / (2 * real t) \<le> a"
    using assms by (simp add: field_simps t_def)
  have "real t \<le> real (c - 1)" using b(1) by (simp only: of_nat_le_iff)
  moreover have "real (c - 1) = real c - 1" using c2 by linarith
  ultimately have "real t < 1 / a" using down by linarith
  moreover have "0 < real t" by (simp add: t_def)
  ultimately have hi: "a < 1 / real t"
    using assms by (simp add: field_simps)
  have t_real: "real t = 2 ^ j" by (simp add: t_def)
  have "- int (Suc j) + 1 = - int j" by simp
  then have p1: "pow2 (exponentOf a + 1) = 1 / real t"
    using pow2_neg [of j] by (simp add: e t_real)
  have p0: "pow2 (exponentOf a) = 1 / (2 * real t)"
    using pow2_neg [of "Suc j"] by (simp add: e t_real)
  show ?thesis unfolding p0 p1 using lo hi by simp
qed

lemma roundHalfEven_error: "\<bar>of_int (roundHalfEven x) - x\<bar> \<le> 1 / 2"
proof -
  have "of_int \<lfloor>x\<rfloor> \<le> x" "x < of_int \<lfloor>x\<rfloor> + 1" by linarith+
  then show ?thesis by (auto simp: roundHalfEven_def Let_def)
qed

lemma pow2_strict_mono: "d < e \<Longrightarrow> pow2 d < pow2 e"
  by (simp add: pow2_powi power_int_strict_increasing)

lemma pow2_half: "pow2 q / 2 = pow2 (q - 1)"
proof -
  have "pow2 q = pow2 (q - 1) * 2"
    using power_int_add [of "2::real" "q - 1" 1] by (simp add: pow2_powi)
  then show ?thesis by simp
qed

lemma roundDouble_error:
  assumes lo: "pow2 L \<le> \<bar>x\<bar>" and hi: "\<bar>x\<bar> < pow2 (H + 1)"
    and L: "- 1022 \<le> L" and H: "H \<le> 1000"
  shows "\<exists>r. roundDouble x = Finite r \<and> \<bar>r - x\<bar> \<le> pow2 (H - 53) \<and> (r < 0) = (x < 0)"
proof -
  define a where "a = \<bar>x\<bar>"
  define e where "e = exponentOf a"
  define q where "q = e - 52"
  define m where "m = roundHalfEven (a / pow2 q)"
  define v where "v = of_int m * pow2 q"
  have apos: "0 < a" using lo pow2_pos [of L] by (simp add: a_def)
  then have x0: "x \<noteq> 0" by (auto simp: a_def)
  have eb: "pow2 e \<le> a" "a < pow2 (e + 1)"
    using exponentOf_bounds [OF apos] by (simp_all add: e_def)
  have eH: "e \<le> H"
  proof (rule ccontr)
    assume "\<not> e \<le> H"
    then have "H + 1 \<le> e" by simp
    then have "pow2 (H + 1) \<le> pow2 e" by (rule pow2_mono)
    then show False using eb(1) hi by (simp add: a_def)
  qed
  have eL: "L \<le> e"
  proof (rule ccontr)
    assume "\<not> L \<le> e"
    then have "e + 1 \<le> L" by simp
    then have "pow2 (e + 1) \<le> pow2 L" by (rule pow2_mono)
    then show False using eb(2) lo by (simp add: a_def)
  qed
  have mx: "max e (- 1022) = e" using eL L by simp
  have qpos: "0 < pow2 q" by (rule pow2_pos)
  have "\<bar>of_int m - a / pow2 q\<bar> \<le> 1 / 2"
    unfolding m_def by (rule roundHalfEven_error)
  then have s1: "\<bar>of_int m - a / pow2 q\<bar> * pow2 q \<le> 1 / 2 * pow2 q"
    using qpos by (simp only: mult_le_cancel_right_pos)
  have s2: "\<bar>of_int m - a / pow2 q\<bar> * pow2 q = \<bar>v - a\<bar>"
  proof -
    have "\<bar>of_int m - a / pow2 q\<bar> * pow2 q = \<bar>(of_int m - a / pow2 q) * pow2 q\<bar>"
      using qpos by (simp add: abs_mult)
    also have "(of_int m - a / pow2 q) * pow2 q = v - a"
      using qpos by (simp add: v_def field_simps)
    finally show ?thesis .
  qed
  have s3: "1 / 2 * pow2 q = pow2 (e - 53)"
    using pow2_half [of q] by (simp add: q_def)
  have err: "\<bar>v - a\<bar> \<le> pow2 (e - 53)"
    using s1 unfolding s2 s3 .
  have errH: "pow2 (e - 53) \<le> pow2 (H - 53)" using eH by (simp add: pow2_mono)
  have small: "pow2 (e - 53) < pow2 e" by (simp add: pow2_strict_mono)
  have vpos: "0 < v" using err small eb(1) by linarith
  have "v \<le> a + pow2 (e - 53)" using err by linarith
  also have "\<dots> < pow2 (e + 1) + pow2 e" using eb(2) small by linarith
  also have "\<dots> \<le> pow2 1001 + pow2 1001"
    using eH H pow2_mono [of "e + 1" 1001] pow2_mono [of e 1001] by simp
  also have "\<dots> < 2 ^ 1024" by (simp add: pow2_def)
  finally have nover: "\<not> 2 ^ 1024 \<le> v" by simp
  have rd: "roundDouble x = Finite (if x < 0 then - v else v)"
    using x0 nover
    unfolding roundDouble_def Let_def a_def [symmetric] e_def [symmetric] mx q_def [symmetric]
      m_def [symmetric] v_def [symmetric]
    by simp
  have "\<bar>(if x < 0 then - v else v) - x\<bar> = \<bar>v - a\<bar>"
    by (simp add: a_def abs_if)
  then have "\<bar>(if x < 0 then - v else v) - x\<bar> \<le> pow2 (H - 53)"
    using err errH by simp
  moreover have "((if x < 0 then - v else v) < 0) = (x < 0)" using vpos by simp
  ultimately show ?thesis using rd by blast
qed

lemma roundDouble_hundredths:
  assumes small: "\<bar>c\<bar> < 10 ^ 15"
  shows "\<exists>r. roundDouble (of_int c / 100) = Finite r
           \<and> (r < 0) = (c < 0)
           \<and> \<lfloor>\<bar>r\<bar> * 100 + 1 / 2\<rfloor> = \<bar>c\<bar>
           \<and> \<bar>r\<bar> < 10 ^ 21"
proof (cases "c = 0")
  case True
  then show ?thesis by (simp add: roundDouble_def)
next
  case False
  define x :: real where "x = of_int c / 100"
  have "1 \<le> \<bar>c\<bar>" using False by linarith
  then have c1: "1 \<le> \<bar>real_of_int c\<bar>" by linarith
  have "real_of_int \<bar>c\<bar> < 10 ^ 15"
    using small by (metis of_int_less_iff of_int_numeral of_int_power)
  then have c2: "\<bar>real_of_int c\<bar> < 10 ^ 15" by simp
  have ax: "\<bar>x\<bar> = \<bar>real_of_int c\<bar> / 100" by (simp add: x_def)
  have lo: "pow2 (- 7) \<le> \<bar>x\<bar>" using c1 by (simp add: ax pow2_def)
  have hi: "\<bar>x\<bar> < pow2 (45 + 1)" using c2 by (simp add: ax pow2_def)
  from roundDouble_error [OF lo hi]
  obtain r where r: "roundDouble x = Finite r" "\<bar>r - x\<bar> \<le> pow2 (45 - 53)" "(r < 0) = (x < 0)"
    by auto
  have err: "\<bar>r - x\<bar> \<le> 1 / 256" using r(2) by (simp add: pow2_def)
  have "\<bar>\<bar>r\<bar> - \<bar>x\<bar>\<bar> \<le> \<bar>r - x\<bar>" by (rule abs_triangle_ineq3)
  then have near: "\<bar>\<bar>r\<bar> - \<bar>real_of_int c\<bar> / 100\<bar> \<le> 1 / 256"
    using err by (simp add: ax)
  have g1: "\<bar>real_of_int c\<bar> \<le> \<bar>r\<bar> * 100 + 1 / 2" using near by linarith
  have g2: "\<bar>r\<bar> * 100 + 1 / 2 < \<bar>real_of_int c\<bar> + 1" using near by linarith
  have ac: "real_of_int \<bar>c\<bar> = \<bar>real_of_int c\<bar>" by simp
  have f1: "real_of_int \<bar>c\<bar> \<le> \<bar>r\<bar> * 100 + 1 / 2" unfolding ac by (rule g1)
  have f2: "\<bar>r\<bar> * 100 + 1 / 2 < real_of_int \<bar>c\<bar> + 1" unfolding ac by (rule g2)
  have fl: "\<lfloor>\<bar>r\<bar> * 100 + 1 / 2\<rfloor> = \<bar>c\<bar>"
    using f1 f2 by (rule floor_unique)
  have sg: "(r < 0) = (c < 0)" using r(3) by (simp add: x_def)
  have "(10::real) ^ 15 / 100 + 1 / 256 < 10 ^ 21" by simp
  then have big: "\<bar>r\<bar> < 10 ^ 21" using near c2 by linarith
  show ?thesis using r(1) sg fl big by (auto simp: x_def)
qed

subsection \<open>Digits\<close>

lemma digitChar_isDigit: "d < 10 \<Longrightarrow> isDigit (digitChar d)"
proof -
  assume "d < 10"
  then have "d \<in> {0, 1, 2, 3, 4, 5, 6, 7, 8, 9}" by auto
  then show ?thesis by (auto simp: digitChar_def isDigit_def)
qed

lemma decimalDigits_small: "n < 10 \<Longrightarrow> decimalDigits n = [digitChar n]"
  by (simp add: decimalDigits.simps)

lemma decimalDigits_split10:
  "10 \<le> n \<Longrightarrow> decimalDigits n = decimalDigits (n div 10) @ [digitChar (n mod 10)]"
  by (subst decimalDigits.simps) simp

lemma decimalDigits_digits: "list_all isDigit (decimalDigits n)"
proof (induction n rule: decimalDigits.induct)
  case (1 n)
  show ?case
  proof (cases "n < 10")
    case True
    then show ?thesis by (simp add: decimalDigits_small digitChar_isDigit)
  next
    case False
    then have "list_all isDigit (decimalDigits (n div 10))" using "1.IH" by simp
    moreover have "isDigit (digitChar (n mod 10))" by (simp add: digitChar_isDigit)
    ultimately show ?thesis using False by (simp add: decimalDigits_split10)
  qed
qed

lemma decimalDigits_nonempty: "decimalDigits n \<noteq> []"
  by (subst decimalDigits.simps) simp

lemma last_two:
  "(n::nat) mod 100 div 10 = n div 10 mod 10"
  "(n::nat) mod 100 mod 10 = n mod 10"
proof -
  have "n mod 100 = 10 * (n div 10 mod 10) + n mod 10"
    using mod_mult2_eq [of n 10 10] by simp
  then show "n mod 100 div 10 = n div 10 mod 10" by simp
  show "n mod 100 mod 10 = n mod 10" by (simp add: mod_mod_cancel)
qed

lemma last_three:
  "(n::nat) mod 1000 div 100 = n div 100 mod 10"
  "(n::nat) mod 1000 mod 100 = n mod 100"
proof -
  have "n mod 1000 = 100 * (n div 100 mod 10) + n mod 100"
    using mod_mult2_eq [of n 100 10] by simp
  then show "n mod 1000 div 100 = n div 100 mod 10" by simp
  show "n mod 1000 mod 100 = n mod 100" by (simp add: mod_mod_cancel)
qed

lemma decimalDigits_split100:
  assumes "100 \<le> n"
  shows "decimalDigits n = decimalDigits (n div 100) @ twoDigits (n mod 100)"
proof -
  have a: "decimalDigits n = decimalDigits (n div 10) @ [digitChar (n mod 10)]"
    using assms by (simp add: decimalDigits_split10)
  have "10 \<le> n div 10" using assms by simp
  then have b: "decimalDigits (n div 10) =
      decimalDigits (n div 10 div 10) @ [digitChar (n div 10 mod 10)]"
    by (rule decimalDigits_split10)
  have c: "n div 10 div 10 = n div 100" by (simp add: div_mult2_eq)
  show ?thesis by (simp add: a b c last_two twoDigits_def)
qed

lemma decimalDigits_split1000:
  assumes "1000 \<le> n"
  shows "decimalDigits n = decimalDigits (n div 1000) @ threeDigits (n mod 1000)"
proof -
  have a: "decimalDigits n = decimalDigits (n div 100) @ twoDigits (n mod 100)"
    using assms by (simp add: decimalDigits_split100)
  have "10 \<le> n div 100" using assms by simp
  then have b: "decimalDigits (n div 100) =
      decimalDigits (n div 100 div 10) @ [digitChar (n div 100 mod 10)]"
    by (rule decimalDigits_split10)
  have c: "n div 100 div 10 = n div 1000" by (simp add: div_mult2_eq)
  show ?thesis by (simp add: a b c last_three threeDigits_def)
qed

subsection \<open>Thousands separators\<close>

lemma takeWhile_all: "list_all P xs \<Longrightarrow> takeWhile P xs = xs"
  by (induction xs) simp_all

lemma run_of_digits: "list_all isDigit xs \<Longrightarrow> length (takeWhile isDigit xs) = length xs"
  by (simp add: takeWhile_all)

lemma separate_short:
  "list_all isDigit ds \<Longrightarrow> length ds < 3 \<Longrightarrow> separate prev ds = ds"
proof (induction ds arbitrary: prev)
  case Nil
  then show ?case by simp
next
  case (Cons c cs)
  have run: "length (takeWhile isDigit (c # cs)) = Suc (length cs)"
    using run_of_digits [OF Cons.prems(1)] by (simp only: length_Cons)
  have "Suc (length cs) mod 3 \<noteq> 0" using Cons.prems(2) by auto
  moreover have "separate (Some c) cs = cs" using Cons by simp
  ultimately show ?case by (simp add: run del: takeWhile.simps)
qed

lemma separate_three:
  assumes "list_all isDigit ys" "length ys = 3" "isWordChar p"
  shows "separate (Some p) ys = CHR '','' # ys"
proof -
  obtain a b c where ys: "ys = [a, b, c]"
    using assms(2) by (metis length_0_conv length_Suc_conv numeral_3_eq_3)
  have "separate (Some a) [b, c] = [b, c]"
    using assms(1) by (intro separate_short) (simp_all add: ys)
  then show ?thesis using assms(1,3) by (simp add: ys)
qed

lemma isDigit_isWordChar: "isDigit c \<Longrightarrow> isWordChar c"
  by (auto simp: isDigit_def isWordChar_def)

lemma separate_group:
  assumes "list_all isDigit xs" "xs \<noteq> []" "list_all isDigit ys" "length ys = 3"
  shows "separate prev (xs @ ys) = separate prev xs @ CHR '','' # ys"
  using assms(1,2)
proof (induction xs arbitrary: prev)
  case Nil
  then show ?case by simp
next
  case (Cons c cs)
  have dc: "isDigit c" and dcs: "list_all isDigit cs" using Cons.prems(1) by simp_all
  have "list_all isDigit (c # cs @ ys)" using dc dcs assms(3) by simp
  from run_of_digits [OF this]
  have run1: "length (takeWhile isDigit (c # cs @ ys)) = Suc (length cs) + 3"
    using assms(4) by (simp only: length_Cons length_append)
  have run2: "length (takeWhile isDigit (c # cs)) = Suc (length cs)"
    using run_of_digits [OF Cons.prems(1)] by (simp only: length_Cons)
  have same: "(4 + length cs) mod 3 = Suc (length cs) mod 3" by presburger
  have rest: "separate (Some c) (cs @ ys) = separate (Some c) cs @ CHR '','' # ys"
  proof (cases "cs = []")
    case True
    then show ?thesis
      using separate_three [OF assms(3,4) isDigit_isWordChar [OF dc]] by simp
  next
    case False
    then show ?thesis using Cons.IH [OF dcs] by simp
  qed
  show ?case
    using rest by (simp add: run1 run2 same del: takeWhile.simps)
qed

lemma thousands_decimalDigits: "thousands (decimalDigits n) = groupThousands n"
proof (induction n rule: groupThousands.induct)
  case (1 n)
  show ?case
  proof (cases "n < 1000")
    case True
    note small = True
    have g: "groupThousands n = decimalDigits n" using True by (simp add: groupThousands.simps)
    show ?thesis
    proof (cases "n < 100")
      case True
      have "length (decimalDigits n) < 3"
      proof (cases "n < 10")
        case True
        then show ?thesis by (simp add: decimalDigits_small)
      next
        case False
        then have "n div 10 < 10" using True by simp
        then show ?thesis using False by (simp add: decimalDigits_split10 decimalDigits_small)
      qed
      then show ?thesis
        using separate_short [OF decimalDigits_digits] by (simp add: thousands_def g)
    next
      case False
      then have h: "n div 100 < 10" "100 \<le> n" using small by simp_all
      have d: "decimalDigits n = digitChar (n div 100) # twoDigits (n mod 100)"
        using h by (simp add: decimalDigits_split100 decimalDigits_small)
      have "list_all isDigit (twoDigits (n mod 100))"
        by (simp add: twoDigits_def digitChar_isDigit)
      then have "separate (Some (digitChar (n div 100))) (twoDigits (n mod 100)) = twoDigits (n mod 100)"
        by (rule separate_short) (simp add: twoDigits_def)
      then show ?thesis by (simp add: thousands_def g d)
    qed
  next
    case False
    then have big: "1000 \<le> n" by simp
    have d: "decimalDigits n = decimalDigits (n div 1000) @ threeDigits (n mod 1000)"
      using big by (rule decimalDigits_split1000)
    have t: "list_all isDigit (threeDigits (n mod 1000))" "length (threeDigits (n mod 1000)) = 3"
      by (simp_all add: threeDigits_def twoDigits_def digitChar_isDigit)
    have "thousands (decimalDigits n) =
        thousands (decimalDigits (n div 1000)) @ CHR '','' # threeDigits (n mod 1000)"
      unfolding thousands_def d
      by (rule separate_group [OF decimalDigits_digits decimalDigits_nonempty t])
    then show ?thesis
      using "1.IH" [OF False] False by (simp add: groupThousands.simps [of n])
  qed
qed

lemma thousands_signed:
  fixes k :: int
  shows "thousands (signOf k @ ds) = signOf k @ thousands ds"
proof (cases "k < 0")
  case False
  then show ?thesis by (simp add: signOf_def)
next
  case True
  have "separate (Some (CHR ''-'')) ds = separate None ds"
    by (cases ds) (simp_all add: isWordChar_def)
  then show ?thesis using True by (simp add: signOf_def thousands_def isDigit_def)
qed

subsection \<open>Splitting at the point\<close>

lemma splitOn_none: "c \<notin> set s \<Longrightarrow> splitOn c s = [s]"
proof (induction s)
  case Nil
  show ?case by simp
next
  case (Cons x xs)
  then have "x \<noteq> c" and "splitOn c xs = [xs]" by auto
  then show ?case by simp
qed

lemma splitOn_at: "c \<notin> set a \<Longrightarrow> c \<notin> set b \<Longrightarrow> splitOn c (a @ c # b) = [a, b]"
proof (induction a)
  case Nil
  then show ?case by (simp add: splitOn_none)
next
  case (Cons x xs)
  then have "x \<noteq> c" and "splitOn c (xs @ c # b) = [xs, b]" by auto
  then show ?case by simp
qed

lemma digits_no_point: "list_all isDigit ds \<Longrightarrow> CHR ''.'' \<notin> set ds"
proof -
  assume a: "list_all isDigit ds"
  have "\<not> isDigit (CHR ''.'')" by (simp add: isDigit_def)
  then show ?thesis using a by (auto simp: list_all_iff)
qed

lemma signOf_no_point: "CHR ''.'' \<notin> set (signOf k)"
  by (simp add: signOf_def)

lemma twoDigits_digits: "list_all isDigit (twoDigits (d mod 100))"
  by (simp add: twoDigits_def digitChar_isDigit)

lemma digitChar_0: "digitChar 0 = CHR ''0''"
  by (simp add: digitChar_def)

subsection \<open>Two fraction digits\<close>

lemma toFixed2_cents:
  assumes "\<bar>r\<bar> < 10 ^ 21" and n: "n = nat \<lfloor>\<bar>r\<bar> * 100 + 1 / 2\<rfloor>"
  shows "toFixed2 (Finite r) =
    Some ((if r < 0 then ''-'' else []) @ decimalDigits (n div 100) @ ''.'' @ twoDigits (n mod 100))"
proof -
  define m where "m = decimalDigits n"
  define m' where "m' = (if length m \<le> 2 then replicate (3 - length m) (CHR ''0'') @ m else m)"
  have unfold: "toFixed2 (Finite r) =
      Some ((if r < 0 then ''-'' else []) @ take (length m' - 2) m' @ ''.'' @ drop (length m' - 2) m')"
    using assms(1) by (simp add: toFixed2_def Let_def n m_def m'_def)
  have parts: "take (length m' - 2) m' = decimalDigits (n div 100)
      \<and> drop (length m' - 2) m' = twoDigits (n mod 100)"
  proof (cases "n < 10")
    case True
    then have "m = [digitChar n]" by (simp add: m_def decimalDigits_small)
    then have "m' = [CHR ''0'', CHR ''0'', digitChar n]"
      by (simp add: m'_def numeral_2_eq_2)
    then show ?thesis using True
      by (simp add: decimalDigits_small digitChar_0 twoDigits_def)
  next
    case False
    note ge10 = False
    show ?thesis
    proof (cases "n < 100")
      case True
      then have "n div 10 < 10" by simp
      then have "m = [digitChar (n div 10), digitChar (n mod 10)]"
        using ge10 by (simp add: m_def decimalDigits_split10 decimalDigits_small)
      then have "m' = [CHR ''0'', digitChar (n div 10), digitChar (n mod 10)]"
        by (simp add: m'_def)
      then show ?thesis using True
        by (simp add: decimalDigits_small digitChar_0 twoDigits_def)
    next
      case False
      then have split: "m = decimalDigits (n div 100) @ twoDigits (n mod 100)"
        by (simp add: m_def decimalDigits_split100)
      have len: "length (twoDigits (n mod 100)) = 2" by (simp add: twoDigits_def)
      have "0 < length (decimalDigits (n div 100))"
        using decimalDigits_nonempty [of "n div 100"] by simp
      then have "\<not> length m \<le> 2" by (simp add: split len)
      then have "m' = m" by (simp add: m'_def)
      then show ?thesis by (simp add: split len)
    qed
  qed
  show ?thesis using unfold parts by simp
qed

subsection \<open>formatCurrency\<close>

lemma formatCurrency_Echoes:
  assumes p: "fmul amount (Finite 100) = Finite p" and small: "\<bar>\<lfloor>p + 1 / 2\<rfloor>\<bar> < 10 ^ 15"
  shows "formatCurrency amount ''Echoes'' = Some (renderCents \<lfloor>p + 1 / 2\<rfloor> @ '' Echoes'')"
proof -
  define c where "c = \<lfloor>p + 1 / 2\<rfloor>"
  define n where "n = nat \<bar>c\<bar>"
  have small': "\<bar>c\<bar> < 10 ^ 15" using small by (simp add: c_def)
  from roundDouble_hundredths [OF small']
  obtain r where r: "roundDouble (of_int c / 100) = Finite r" "(r < 0) = (c < 0)"
    "\<lfloor>\<bar>r\<bar> * 100 + 1 / 2\<rfloor> = \<bar>c\<bar>" "\<bar>r\<bar> < 10 ^ 21"
    by blast
  have rounded: "fdiv (mathRound (fmul amount (Finite 100))) (Finite 100) = Finite r"
    by (simp add: p mathRound_def c_def [symmetric] r(1))
  have nr: "n = nat \<lfloor>\<bar>r\<bar> * 100 + 1 / 2\<rfloor>" by (simp add: n_def r(3))
  have fixed: "toFixed2 (Finite r) =
      Some (signOf c @ decimalDigits (n div 100) @ ''.'' @ twoDigits (n mod 100))"
    using toFixed2_cents [OF r(4) nr] r(2) by (simp add: signOf_def)
  have np: "CHR ''.'' \<notin> set (signOf c @ decimalDigits (n div 100))"
    using digits_no_point [OF decimalDigits_digits [of "n div 100"]] signOf_no_point [of c]
    by simp
  have np2: "CHR ''.'' \<notin> set (twoDigits (n mod 100))"
    using digits_no_point [OF twoDigits_digits [of n]] by simp
  have split: "splitOn (CHR ''.'') (signOf c @ decimalDigits (n div 100) @ CHR ''.'' # twoDigits (n mod 100)) =
      [signOf c @ decimalDigits (n div 100), twoDigits (n mod 100)]"
    using splitOn_at [OF np np2] by (simp only: append_assoc)
  have grouped: "thousands (signOf c @ decimalDigits (n div 100)) = signOf c @ groupThousands (n div 100)"
    by (simp add: thousands_signed thousands_decimalDigits)
  show ?thesis
    unfolding formatCurrency_def
    by (simp add: Let_def rounded fixed split grouped renderCents_def c_def [symmetric] n_def [symmetric])
qed

lemma formatCurrency_whole:
  assumes "currency \<noteq> ''Echoes''" and small: "\<bar>\<lfloor>t + 1 / 2\<rfloor>\<bar> < 10 ^ 15"
  shows "formatCurrency (Finite t) currency = Some (renderWhole \<lfloor>t + 1 / 2\<rfloor> @ '' '' @ currency)"
proof -
  define u where "u = \<lfloor>t + 1 / 2\<rfloor>"
  have small': "\<bar>u\<bar> < 10 ^ 15" using small by (simp add: u_def)
  then have "\<bar>u\<bar> < 2 ^ 53" by simp
  then have "real_of_int \<bar>u\<bar> < 2 ^ 53"
    by (metis of_int_less_iff of_int_numeral of_int_power)
  then have dom: "\<bar>real_of_int u\<bar> < 2 ^ 53" by simp
  have str: "numberToString (Finite (of_int u)) = Some (signOf u @ decimalDigits (nat \<bar>u\<bar>))"
    using dom by (simp add: numberToString_def signOf_def flip: of_int_abs)
  have grouped: "thousands (signOf u @ decimalDigits (nat \<bar>u\<bar>)) = signOf u @ groupThousands (nat \<bar>u\<bar>)"
    by (simp add: thousands_signed thousands_decimalDigits)
  show ?thesis
    unfolding formatCurrency_def
    using assms(1)
    by (simp add: Let_def mathRound_def u_def [symmetric] str grouped renderWhole_def)
qed

lemma more_exponent_values:
  "exponentOf (1 / 200) = - 8"
  "exponentOf (497 / 10) = 5"
  "exponentOf (144115188075855875 / 288230376151711744) = - 1"
  by (simp_all add: exponent_eval)

lemma more_nearest_doubles:
  "roundDouble (5 / 1000) = Finite halfCent"
  "roundDouble (497 / 10) = Finite fortyNineSeven"
  by (simp_all add: round_eval more_exponent_values halfCent_def fortyNineSeven_def)

lemma halfCent_times_100: "fmul (Finite halfCent) (Finite 100) = Finite (1 / 2)"
  by (simp add: halfCent_def round_eval more_exponent_values)

lemmas render_eval = renderCents_def renderWhole_def signOf_def groupThousands.simps
  decimalDigits.simps twoDigits_def threeDigits_def digitChar_def

lemma render_examples:
  "renderCents 1 = ''0.01''"
  "renderWhole 50 = ''50''"
  "renderCents 123450 = ''1,234.50''"
  "renderWhole 12501 = ''12,501''"
  "renderCents (- 123457) = ''-1,234.57''"
  by (simp_all add: render_eval)

lemma docExample_times_100: "fmul (Finite docExample) (Finite 100) = Finite 123456"
proof -
  have e: "exponentOf (67870653759356925 / 549755813888) = 16"
    by (simp add: exponent_eval)
  show ?thesis by (simp add: docExample_def round_eval e)
qed

lemma formatCurrency_examples:
  "formatCurrency (Finite docExample) ''Echoes'' = Some ''1,234.56 Echoes''"
  "formatCurrency (Finite 0) ''Echoes'' = Some ''0.00 Echoes''"
  "formatCurrency (Finite 12500) ''Hinterland Scrip'' = Some ''12,500 Hinterland Scrip''"
proof -
  show "formatCurrency (Finite docExample) ''Echoes'' = Some ''1,234.56 Echoes''"
    using formatCurrency_Echoes [OF docExample_times_100] by (simp add: render_eval)
  have z: "fmul (Finite 0) (Finite 100) = Finite 0" by (simp add: roundDouble_def)
  show "formatCurrency (Finite 0) ''Echoes'' = Some ''0.00 Echoes''"
    using formatCurrency_Echoes [OF z] by (simp add: render_eval)
  show "formatCurrency (Finite 12500) ''Hinterland Scrip'' = Some ''12,500 Hinterland Scrip''"
    using formatCurrency_whole [of "''Hinterland Scrip''" 12500] by (simp add: render_eval)
qed

lemma formatCurrency_not_finite:
  "formatCurrency PosInfinity ''Echoes'' = Some ''Infinity Echoes''"
  "formatCurrency NaN ''Hinterland Scrip'' = Some ''NaN Hinterland Scrip''"
  by (simp_all add: formatCurrency_def infinityTimes_def mathRound_def toFixed2_def
      numberToString_def thousands_def isWordChar_def isDigit_def)

lemma centAndHalf_times_100: "fmul (Finite centAndHalf) (Finite 100) = Finite (3 / 2)"
proof -
  have e: "exponentOf (27021597764222975 / 18014398509481984) = 0"
    by (simp add: exponent_eval)
  show ?thesis by (simp add: centAndHalf_def round_eval e)
qed

text \<open>
  Claim C7 says that the amount is rounded half up to the cent. What is rounded half up
  is the product \<^verbatim>\<open>total * 100\<close>, which is itself rounded to a double. The double
  \<^verbatim>\<open>0.015\<close> is less than a cent and a half, so that half up to the cent it is one cent;
  its product with 100 is the double 1.5, and the text is \<^verbatim>\<open>0.02 Echoes\<close>. And the
  text of the number Infinity has no decimal places.
\<close>

theorem formatCurrency_half_up_counterexample:
  "centAndHalf < 15 / 1000
   \<and> \<lfloor>centAndHalf * 100 + 1 / 2\<rfloor> = 1
   \<and> formatCurrency (Finite centAndHalf) ''Echoes'' = Some ''0.02 Echoes''
   \<and> formatCurrency PosInfinity ''Echoes'' = Some ''Infinity Echoes''"
proof -
  have a: "centAndHalf < 15 / 1000" by (simp add: centAndHalf_def)
  have b: "\<lfloor>centAndHalf * 100 + 1 / 2\<rfloor> = 1" by (simp add: centAndHalf_def)
  have "\<lfloor>(3::real) / 2 + 1 / 2\<rfloor> = 2" by simp
  then have c: "formatCurrency (Finite centAndHalf) ''Echoes'' = Some ''0.02 Echoes''"
    using formatCurrency_Echoes [OF centAndHalf_times_100] by (simp add: render_eval)
  show ?thesis using a b c formatCurrency_not_finite(1) by blast
qed

text \<open>
  Claim C7, as the code has it. \<^verbatim>\<open>formatCurrency\<close> applies a policy per currency,
  rounding half up as \<^verbatim>\<open>Math.round\<close> does. For \<^verbatim>\<open>Echoes\<close>, when the product
  \<^verbatim>\<open>total * 100\<close>, computed as a double, is a finite number \<open>p\<close>, the text is the count of
  cents \<open>\<lfloor>p + 1 / 2\<rfloor>\<close> (\<open>p\<close> rounded to an integer, a half going up) written with
  exactly two decimal places and thousands separators on the whole part, followed by the
  currency; so the double \<^verbatim>\<open>0.005\<close>, whose product with 100 is 0.5, gives
  \<^verbatim>\<open>0.01 Echoes\<close>. For any other currency and a finite total \<open>t\<close>, the text is the
  whole number \<open>\<lfloor>t + 1 / 2\<rfloor>\<close> with thousands separators and no decimal portion, followed
  by the currency; so \<^verbatim>\<open>49.7\<close> in \<^verbatim>\<open>Hinterland Scrip\<close> gives \<^verbatim>\<open>50 Hinterland Scrip\<close>. Both
  hold for amounts whose rounded count (of cents, of units) is below \<open>10 ^ 15\<close> in
  magnitude, where the division by 100 and the two printing functions lose nothing.
\<close>

theorem formatCurrency_policy:
  "(fmul amount (Finite 100) = Finite p \<and> \<bar>\<lfloor>p + 1 / 2\<rfloor>\<bar> < 10 ^ 15 \<longrightarrow>
      formatCurrency amount ''Echoes'' = Some (renderCents \<lfloor>p + 1 / 2\<rfloor> @ '' Echoes''))
   \<and> (currency \<noteq> ''Echoes'' \<and> \<bar>\<lfloor>t + 1 / 2\<rfloor>\<bar> < 10 ^ 15 \<longrightarrow>
      formatCurrency (Finite t) currency = Some (renderWhole \<lfloor>t + 1 / 2\<rfloor> @ '' '' @ currency))
   \<and> formatCurrency (Finite halfCent) ''Echoes'' = Some ''0.01 Echoes''
   \<and> formatCurrency (Finite fortyNineSeven) ''Hinterland Scrip'' = Some ''50 Hinterland Scrip''"
proof -
  have a: "fmul amount (Finite 100) = Finite p \<and> \<bar>\<lfloor>p + 1 / 2\<rfloor>\<bar> < 10 ^ 15 \<longrightarrow>
      formatCurrency amount ''Echoes'' = Some (renderCents \<lfloor>p + 1 / 2\<rfloor> @ '' Echoes'')"
    using formatCurrency_Echoes by blast
  have b: "currency \<noteq> ''Echoes'' \<and> \<bar>\<lfloor>t + 1 / 2\<rfloor>\<bar> < 10 ^ 15 \<longrightarrow>
      formatCurrency (Finite t) currency = Some (renderWhole \<lfloor>t + 1 / 2\<rfloor> @ '' '' @ currency)"
    using formatCurrency_whole by blast
  have "\<lfloor>(1::real) / 2 + 1 / 2\<rfloor> = 1" by simp
  then have c: "formatCurrency (Finite halfCent) ''Echoes'' = Some ''0.01 Echoes''"
    using formatCurrency_Echoes [OF halfCent_times_100] render_examples(1) by simp
  have "\<lfloor>fortyNineSeven + 1 / 2\<rfloor> = 50" by (simp add: fortyNineSeven_def)
  then have d: "formatCurrency (Finite fortyNineSeven) ''Hinterland Scrip'' = Some ''50 Hinterland Scrip''"
    using formatCurrency_whole [of "''Hinterland Scrip''" fortyNineSeven] render_examples(2) by simp
  show ?thesis using a b c d by blast
qed

theorem formatCurrency_policy_witness:
  "fmul (Finite (2469 / 2)) (Finite 100) = Finite 123450
   \<and> \<bar>\<lfloor>(123450::real) + 1 / 2\<rfloor>\<bar> < 10 ^ 15
   \<and> formatCurrency (Finite (2469 / 2)) ''Echoes'' = Some ''1,234.50 Echoes''
   \<and> ''Hinterland Scrip'' \<noteq> ''Echoes''
   \<and> \<bar>\<lfloor>(25001::real) / 2 + 1 / 2\<rfloor>\<bar> < 10 ^ 15
   \<and> formatCurrency (Finite (25001 / 2)) ''Hinterland Scrip'' = Some ''12,501 Hinterland Scrip''"
proof -
  have p: "fmul (Finite (2469 / 2)) (Finite 100) = Finite 123450"
    using roundDouble_of_int [of 123450] by simp
  have f1: "\<lfloor>(123450::real) + 1 / 2\<rfloor> = 123450" by simp
  have f2: "\<lfloor>(25001::real) / 2 + 1 / 2\<rfloor> = 12501" by simp
  have ne: "''Hinterland Scrip'' \<noteq> ''Echoes''" by simp
  note t1 = formatCurrency_policy [of "Finite (2469 / 2)" 123450 "''Hinterland Scrip''" "25001 / 2"]
  have e: "formatCurrency (Finite (2469 / 2)) ''Echoes'' = Some (renderCents 123450 @ '' Echoes'')"
    using t1 p f1 by simp
  have w: "formatCurrency (Finite (25001 / 2)) ''Hinterland Scrip'' =
      Some (renderWhole 12501 @ '' Hinterland Scrip'')"
    using t1 ne f2 by simp
  show ?thesis using p f1 f2 ne e w render_examples(3,4) by simp
qed

end
